theory Spec2Isabelle
  imports Complex_Main
begin

section \<open>Numbers\<close>

text \<open>
  The simulations compute on JavaScript numbers.  They are modelled as real numbers
  (ideal arithmetic, no rounding); entity identifiers, entity counts and lane numbers,
  which the code only ever fills with integers, are modelled as \<open>int\<close>.

  The remainder operator \<^verbatim>\<open>%\<close> truncates the quotient towards zero, so
  its result has the sign of the dividend.
\<close>

definition trunc :: "real \<Rightarrow> int" where
  "trunc r = (if 0 \<le> r then \<lfloor>r\<rfloor> else \<lceil>r\<rceil>)"

definition fmod :: "real \<Rightarrow> real \<Rightarrow> real" where
  "fmod a b = a - b * of_int (trunc (a / b))"

definition irem :: "int \<Rightarrow> int \<Rightarrow> int" where
  "irem a b = sgn a * (\<bar>a\<bar> mod \<bar>b\<bar>)"

definition TOTAL_PATH_LENGTH :: real where
  "TOTAL_PATH_LENGTH = 1000"

section \<open>Data model\<close>

text \<open>
  \<^verbatim>\<open>Particle\<close> and \<^verbatim>\<open>Kid\<close> are both \<^verbatim>\<open>{ id: number; progress: number }\<close>.
  The field \<^verbatim>\<open>id\<close> is called \<open>ident\<close> here, the coordinates \<^verbatim>\<open>x\<close>, \<^verbatim>\<open>y\<close>
  of a returned position \<open>px\<close>, \<open>py\<close>.
\<close>

record particle =
  ident :: int
  progress :: real

record point =
  px :: real
  py :: real

record apoint = point +
  angle :: real

text \<open>\<^verbatim>\<open>Array.from({ length: count }, (_, i) => ({ id: i, progress: (i / count) * TOTAL_PATH_LENGTH }))\<close>\<close>

definition seed :: "nat \<Rightarrow> particle list" where
  "seed count =
     map (\<lambda>i. \<lparr>ident = int i, progress = (real i / real count) * TOTAL_PATH_LENGTH\<rparr>) [0..<count]"

section \<open>Electric circuit: position function\<close>

definition elec_offset :: "int \<Rightarrow> int \<Rightarrow> real \<Rightarrow> real \<Rightarrow> real" where
  "elec_offset particleId totalParticles width strokeWidth =
     (let numLanes = max 1 \<lfloor>width / 20\<rfloor>;
          lane = irem particleId numLanes;
          offsetRange = strokeWidth * 0.7
      in if totalParticles > 1
         then (of_int lane - (of_int numLanes - 1) / 2) * (offsetRange / of_int numLanes)
         else 0)"

text \<open>The seven branches of \<^verbatim>\<open>getParticlePosition\<close>, each as a function of the lane offset
  and of \<open>p\<close>, the progress modulo the path length.\<close>

definition elec_seg1 :: "real \<Rightarrow> real \<Rightarrow> apoint" where
  "elec_seg1 offset p = (let t = p / 250 in \<lparr>px = 50 + t * 250, py = 50 + offset, angle = 0\<rparr>)"

definition elec_seg2 :: "real \<Rightarrow> real \<Rightarrow> apoint" where
  "elec_seg2 offset p =
     (let t = (p - 250) / 75 in \<lparr>px = 300 + offset, py = 50 + t * 75, angle = 90\<rparr>)"

definition elec_seg3 :: "real \<Rightarrow> real \<Rightarrow> apoint" where
  "elec_seg3 offset p =
     (let t = (p - 325) / 100 in \<lparr>px = 300 - t * 100, py = 125 + offset, angle = 180\<rparr>)"

definition elec_seg4 :: "real \<Rightarrow> real \<Rightarrow> apoint" where
  "elec_seg4 offset p =
     (let t = (p - 425) / 75 in \<lparr>px = 200 + offset, py = 125 + t * 75, angle = 90\<rparr>)"

definition elec_seg5 :: "real \<Rightarrow> real \<Rightarrow> apoint" where
  "elec_seg5 offset p =
     (let t = (p - 500) / 250 in \<lparr>px = 200 - t * 250, py = 200 + offset, angle = 180\<rparr>)"

definition elec_seg6 :: "real \<Rightarrow> real \<Rightarrow> apoint" where
  "elec_seg6 offset p =
     (let t = (p - 750) / 150 in \<lparr>px = - 50 + offset, py = 200 - t * 150, angle = 270\<rparr>)"

definition elec_seg7 :: "real \<Rightarrow> real \<Rightarrow> apoint" where
  "elec_seg7 offset p =
     (let t = (p - 900) / 100 in \<lparr>px = - 50 + t * 100, py = 50 + offset, angle = 0\<rparr>)"

definition elec_getParticlePosition :: "real \<Rightarrow> int \<Rightarrow> int \<Rightarrow> real \<Rightarrow> real \<Rightarrow> apoint" where
  "elec_getParticlePosition theProgress particleId totalParticles width strokeWidth =
     (let offset = elec_offset particleId totalParticles width strokeWidth;
          p = fmod theProgress TOTAL_PATH_LENGTH
      in if p < 250 then elec_seg1 offset p
         else if p < 325 then elec_seg2 offset p
         else if p < 425 then elec_seg3 offset p
         else if p < 500 then elec_seg4 offset p
         else if p < 750 then elec_seg5 offset p
         else if p < 900 then elec_seg6 offset p
         else elec_seg7 offset p)"

text \<open>The stroke width the component passes: \<^verbatim>\<open>wireStrokeWidth = 4 + (wireWidth / 100) * 8\<close>.\<close>

definition wireStrokeWidth :: "real \<Rightarrow> real" where
  "wireStrokeWidth wireWidth = 4 + (wireWidth / 100) * 8"

section \<open>Water circuit: position function\<close>

definition water_topY :: "real \<Rightarrow> real" where
  "water_topY heightDifference = 180 - (heightDifference / 100) * 140"

definition water_offset :: "int \<Rightarrow> int \<Rightarrow> real \<Rightarrow> real \<Rightarrow> real" where
  "water_offset particleId totalParticles width strokeWidth =
     (let numLanes = max 1 \<lfloor>width / 25\<rfloor>;
          lane = irem particleId numLanes;
          offsetRange = strokeWidth * 0.8
      in if totalParticles > 1
         then (of_int lane - (of_int numLanes - 1) / 2) * (offsetRange / of_int numLanes)
         else 0)"

text \<open>\<^verbatim>\<open>Math.sqrt(vecX*vecX + vecY*vecY) || 1\<close>: a zero magnitude is replaced by 1.\<close>

definition calculatePosition :: "real \<Rightarrow> point \<Rightarrow> point \<Rightarrow> real \<Rightarrow> point" where
  "calculatePosition offset start end prog =
     (let x = px start + (px end - px start) * prog;
          y = py start + (py end - py start) * prog;
          vecX = px end - px start;
          vecY = py end - py start;
          m = sqrt (vecX * vecX + vecY * vecY);
          mag = (if m = 0 then 1 else m);
          normalX = vecY / mag;
          normalY = - vecX / mag
      in \<lparr>px = x + offset * normalX, py = y + offset * normalY\<rparr>)"

definition P_TOP_OUTLET :: "real \<Rightarrow> point" where
  "P_TOP_OUTLET heightDifference = \<lparr>px = 180, py = water_topY heightDifference + 30\<rparr>"

definition P_TURBINE :: point where
  "P_TURBINE = \<lparr>px = 150, py = 240\<rparr>"

definition P_BOTTOM_INLET :: point where
  "P_BOTTOM_INLET = \<lparr>px = 70, py = 300\<rparr>"

definition P_BOTTOM_OUTLET :: point where
  "P_BOTTOM_OUTLET = \<lparr>px = 20, py = 300\<rparr>"

definition P_PUMP_INLET :: point where
  "P_PUMP_INLET = \<lparr>px = 20, py = 220\<rparr>"

definition P_TOP_INLET :: "real \<Rightarrow> point" where
  "P_TOP_INLET heightDifference = \<lparr>px = 180, py = water_topY heightDifference\<rparr>"

definition water_seg1 :: "real \<Rightarrow> real \<Rightarrow> real \<Rightarrow> point" where
  "water_seg1 offset heightDifference p =
     calculatePosition offset (P_TOP_OUTLET heightDifference) P_TURBINE (p / 200)"

definition water_seg2 :: "real \<Rightarrow> real \<Rightarrow> real \<Rightarrow> point" where
  "water_seg2 offset heightDifference p =
     calculatePosition offset P_TURBINE P_BOTTOM_INLET ((p - 200) / 150)"

definition water_seg3 :: "real \<Rightarrow> real \<Rightarrow> real \<Rightarrow> point" where
  "water_seg3 offset heightDifference p = \<lparr>px = px P_BOTTOM_INLET, py = py P_BOTTOM_INLET\<rparr>"

definition water_seg4 :: "real \<Rightarrow> real \<Rightarrow> real \<Rightarrow> point" where
  "water_seg4 offset heightDifference p =
     calculatePosition offset P_BOTTOM_OUTLET P_PUMP_INLET ((p - 400) / 100)"

definition water_seg5 :: "real \<Rightarrow> real \<Rightarrow> real \<Rightarrow> point" where
  "water_seg5 offset heightDifference p =
     calculatePosition offset P_PUMP_INLET \<lparr>px = 20, py = water_topY heightDifference\<rparr>
       ((p - 500) / 250)"

definition water_seg6 :: "real \<Rightarrow> real \<Rightarrow> real \<Rightarrow> point" where
  "water_seg6 offset heightDifference p =
     calculatePosition offset \<lparr>px = 20, py = water_topY heightDifference\<rparr>
       (P_TOP_INLET heightDifference) ((p - 750) / 200)"

definition water_seg7 :: "real \<Rightarrow> real \<Rightarrow> real \<Rightarrow> point" where
  "water_seg7 offset heightDifference p =
     \<lparr>px = px (P_TOP_INLET heightDifference), py = py (P_TOP_INLET heightDifference)\<rparr>"

definition water_getParticlePosition ::
  "real \<Rightarrow> int \<Rightarrow> int \<Rightarrow> real \<Rightarrow> real \<Rightarrow> real \<Rightarrow> point" where
  "water_getParticlePosition theProgress particleId totalParticles width strokeWidth heightDifference =
     (let offset = water_offset particleId totalParticles width strokeWidth;
          p = fmod theProgress TOTAL_PATH_LENGTH
      in if p < 200 then water_seg1 offset heightDifference p
         else if p < 350 then water_seg2 offset heightDifference p
         else if p < 400 then water_seg3 offset heightDifference p
         else if p < 500 then water_seg4 offset heightDifference p
         else if p < 750 then water_seg5 offset heightDifference p
         else if p < 950 then water_seg6 offset heightDifference p
         else water_seg7 offset heightDifference p)"

text \<open>\<^verbatim>\<open>pipeStrokeWidth = 8 + (pipeWidth / 100) * 12\<close>\<close>

definition pipeStrokeWidth :: "real \<Rightarrow> real" where
  "pipeStrokeWidth pipeWidth = 8 + (pipeWidth / 100) * 12"

section \<open>Playground slide: position function\<close>

definition kid_topY :: "real \<Rightarrow> real" where
  "kid_topY slideHeight = 100 - (slideHeight / 100) * 80"

text \<open>\<^verbatim>\<open>getKidPosition\<close> has no stroke-width parameter: the lane distance is the constant 12.\<close>

definition kid_offset :: "int \<Rightarrow> int \<Rightarrow> real \<Rightarrow> real" where
  "kid_offset kidId totalKids width =
     (let numLanes = max 1 \<lfloor>width / 25\<rfloor>;
          lane = irem kidId numLanes
      in if totalKids > 1 then (of_int lane - (of_int numLanes - 1) / 2) * 12 else 0)"

text \<open>Sliding down the cubic Bezier curve; the offset is applied along the curve's normal.\<close>

definition kid_seg1 :: "real \<Rightarrow> real \<Rightarrow> real \<Rightarrow> point" where
  "kid_seg1 offset slideHeight p =
     (let topY = kid_topY slideHeight;
          t = p / 300;
          p0 = \<lparr>px = 50, py = topY\<rparr>;
          p1 = \<lparr>px = 150, py = topY\<rparr>;
          p2 = \<lparr>px = 150, py = 200\<rparr>;
          p3 = \<lparr>px = 250, py = 200\<rparr>;
          tInv = 1 - t;
          x = tInv ^ 3 * px p0 + 3 * tInv ^ 2 * t * px p1 + 3 * tInv * t ^ 2 * px p2 + t ^ 3 * px p3;
          y = tInv ^ 3 * py p0 + 3 * tInv ^ 2 * t * py p1 + 3 * tInv * t ^ 2 * py p2 + t ^ 3 * py p3;
          dx = 3 * tInv ^ 2 * (px p1 - px p0) + 6 * tInv * t * (px p2 - px p1)
               + 3 * t ^ 2 * (px p3 - px p2);
          dy = 3 * tInv ^ 2 * (py p1 - py p0) + 6 * tInv * t * (py p2 - py p1)
               + 3 * t ^ 2 * (py p3 - py p2);
          mag = sqrt (dx * dx + dy * dy)
      in if mag = 0 then \<lparr>px = x, py = y\<rparr>
         else (let normalX = - dy / mag; normalY = dx / mag
               in \<lparr>px = x + offset * normalX, py = y + offset * normalY\<rparr>))"

text \<open>Running back (horizontal).\<close>

definition kid_seg2 :: "real \<Rightarrow> real \<Rightarrow> real \<Rightarrow> point" where
  "kid_seg2 offset slideHeight p =
     (let runProgress = (p - 300) / 300 in \<lparr>px = 250 - runProgress * 200, py = 200 + offset\<rparr>)"

text \<open>Elevator up (vertical).\<close>

definition kid_seg3 :: "real \<Rightarrow> real \<Rightarrow> real \<Rightarrow> point" where
  "kid_seg3 offset slideHeight p =
     (let topY = kid_topY slideHeight;
          elevatorProgress = (p - 600) / 400
      in \<lparr>px = 50 + offset, py = 200 - elevatorProgress * (200 - topY)\<rparr>)"

definition getKidPosition :: "real \<Rightarrow> int \<Rightarrow> int \<Rightarrow> real \<Rightarrow> real \<Rightarrow> point" where
  "getKidPosition theProgress kidId totalKids width slideHeight =
     (let offset = kid_offset kidId totalKids width;
          p = fmod theProgress TOTAL_PATH_LENGTH
      in if p < 300 then kid_seg1 offset slideHeight p
         else if p < 600 then kid_seg2 offset slideHeight p
         else if p < 1000 then kid_seg3 offset slideHeight p
         else \<lparr>px = 0, py = 0\<rparr>)"

text \<open>\<^verbatim>\<open>slideStrokeWidth = 8 + (slideWidth / 100) * 16\<close>, used by the rendering only.\<close>

definition slideStrokeWidth :: "real \<Rightarrow> real" where
  "slideStrokeWidth slideWidth = 8 + (slideWidth / 100) * 16"

section \<open>Component state\<close>

text \<open>
  Each component keeps React state and refs; a handler or an animation frame is a function
  from the state before to the state after.  \<open>displayRate\<close> is \<open>None\<close> when the number
  stored is not finite (a JavaScript division by zero gives \<^verbatim>\<open>Infinity\<close> or \<^verbatim>\<open>NaN\<close>).
  The refs \<^verbatim>\<open>measureRateRef\<close>, \<^verbatim>\<open>heightDifferenceRef\<close>, \<^verbatim>\<open>pipeWidthRef\<close>,
  \<^verbatim>\<open>slideHeightRef\<close> and \<^verbatim>\<open>slideWidthRef\<close> are copies of the state of the same name,
  written by an effect each time it changes, and are not kept apart from it.  The kids of
  the playground are the \<open>particles\<close> of its state.  The turbine's rotation and the
  animation-frame handle belong to the rendering and are left out.
\<close>

record sim =
  isPlaying :: bool
  measureRate :: bool
  displayRate :: "real option"
  particles :: "particle list"

record elec = sim +
  voltage :: real
  wireWidth :: real
  particlesCrossed :: int
  lastMeasureTime :: real

record rolling = sim +
  crossingsTimestampsRef :: "real list"
  lastUiUpdateTimeRef :: real

record water = rolling +
  heightDifference :: real
  pipeWidth :: real

record playground = rolling +
  slideHeight :: real
  slideWidth :: real

text \<open>\<^verbatim>\<open>array.map(callback)\<close> with a callback that also writes to a ref: the ref's value is
  threaded through the elements from left to right.\<close>

fun map_acc :: "('a \<Rightarrow> 'b \<Rightarrow> 'a \<times> 'b) \<Rightarrow> 'a list \<Rightarrow> 'b \<Rightarrow> 'a list \<times> 'b" where
  "map_acc f [] acc = ([], acc)"
| "map_acc f (e # es) acc =
     (case f e acc of (e', acc1) \<Rightarrow>
        (case map_acc f es acc1 of (es', acc2) \<Rightarrow> (e' # es', acc2)))"

definition widthFactor :: "real \<Rightarrow> real" where
  "widthFactor currentWidth = 0.2 + 0.8 * ((currentWidth - 10) / 90)"

text \<open>A division whose divisor is computed: \<open>None\<close> when the divisor is zero.\<close>

definition js_div :: "real \<Rightarrow> real \<Rightarrow> real option" where
  "js_div a b = (if b = 0 then None else Some (a / b))"

section \<open>Electric circuit: animation loop and rate estimator\<close>

definition PARTICLE_COUNT_E :: nat where
  "PARTICLE_COUNT_E = 30"

definition INITIAL_VOLTAGE :: real where
  "INITIAL_VOLTAGE = 50"

definition INITIAL_WIRE_WIDTH :: real where
  "INITIAL_WIRE_WIDTH = 50"

definition CHARGE_PER_PARTICLE :: real where
  "CHARGE_PER_PARTICLE = 0.01"

definition elec_init :: "real \<Rightarrow> elec" where
  "elec_init now =
     \<lparr>isPlaying = True, measureRate = False, displayRate = Some 0,
      particles = seed PARTICLE_COUNT_E,
      voltage = INITIAL_VOLTAGE, wireWidth = INITIAL_WIRE_WIDTH,
      particlesCrossed = 0, lastMeasureTime = now\<rparr>"

text \<open>The effect that runs when \<open>measureRate\<close> has changed.\<close>

definition elec_measureRate_effect :: "real \<Rightarrow> elec \<Rightarrow> elec" where
  "elec_measureRate_effect now s =
     (if \<not> measureRate s
      then s\<lparr>particlesCrossed := 0, lastMeasureTime := now, displayRate := Some 0\<rparr>
      else s)"

definition elec_setMeasureRate :: "bool \<Rightarrow> real \<Rightarrow> elec \<Rightarrow> elec" where
  "elec_setMeasureRate b now s =
     (if measureRate s = b then s else elec_measureRate_effect now (s\<lparr>measureRate := b\<rparr>))"

text \<open>The first part of \<^verbatim>\<open>runSimulation\<close>: the one-second bucket.\<close>

definition elec_report :: "real \<Rightarrow> elec \<Rightarrow> elec" where
  "elec_report now s =
     (if measureRate s
      then (if now - lastMeasureTime s \<ge> 1000
            then s\<lparr>displayRate := Some (of_int (particlesCrossed s) * CHARGE_PER_PARTICLE),
                   particlesCrossed := 0, lastMeasureTime := now\<rparr>
            else s)
      else s)"

definition elec_speed :: "real \<Rightarrow> real" where
  "elec_speed v = (v / 100) * 4"

definition elec_crossed :: "real \<Rightarrow> real \<Rightarrow> bool" where
  "elec_crossed oldProgress newProgress \<longleftrightarrow>
     fmod oldProgress TOTAL_PATH_LENGTH > 900 \<and> fmod newProgress TOTAL_PATH_LENGTH \<le> 900"

definition elec_step :: "real \<Rightarrow> bool \<Rightarrow> particle \<Rightarrow> int \<Rightarrow> particle \<times> int" where
  "elec_step speed measuring p crossed =
     (let newProgress = progress p + speed;
          crossed1 = (if measuring
                      then (if elec_crossed (progress p) newProgress then crossed + 1 else crossed)
                      else crossed)
      in (p\<lparr>progress := newProgress\<rparr>, crossed1))"

definition elec_runSimulation :: "real \<Rightarrow> elec \<Rightarrow> elec" where
  "elec_runSimulation now s =
     (let s1 = elec_report now s;
          speed = elec_speed (voltage s1)
      in case map_acc (elec_step speed (measureRate s1)) (particles s1) (particlesCrossed s1) of
           (ps, crossed) \<Rightarrow> s1\<lparr>particles := ps, particlesCrossed := crossed\<rparr>)"

definition elec_handleReset :: "real \<Rightarrow> elec \<Rightarrow> elec" where
  "elec_handleReset now s =
     elec_setMeasureRate False now
       (s\<lparr>isPlaying := False, voltage := INITIAL_VOLTAGE, wireWidth := INITIAL_WIRE_WIDTH,
          particles := seed PARTICLE_COUNT_E\<rparr>)"

text \<open>What can happen to the component: an animation frame (only while playing), the
  play/pause button, the two sliders, the measurement checkbox, the reset button.  The real
  argument of a frame, of the checkbox and of reset is the reading of the clock.\<close>

datatype elec_event =
  EFrame real | EPlayPause | ESetVoltage real | ESetWireWidth real
  | ESetMeasureRate bool real | EReset real

fun elec_handle :: "elec \<Rightarrow> elec_event \<Rightarrow> elec" where
  "elec_handle s (EFrame now) = (if isPlaying s then elec_runSimulation now s else s)"
| "elec_handle s EPlayPause = s\<lparr>isPlaying := \<not> isPlaying s\<rparr>"
| "elec_handle s (ESetVoltage v) = s\<lparr>voltage := v\<rparr>"
| "elec_handle s (ESetWireWidth w) = s\<lparr>wireWidth := w\<rparr>"
| "elec_handle s (ESetMeasureRate b now) = elec_setMeasureRate b now s"
| "elec_handle s (EReset now) = elec_handleReset now s"

definition elec_after :: "real \<Rightarrow> elec_event list \<Rightarrow> elec" where
  "elec_after t0 evs = foldl elec_handle (elec_init t0) evs"

section \<open>Rolling-window rate estimator (water circuit and playground)\<close>

definition CROSSING_POINT :: real where
  "CROSSING_POINT = 450"

definition rolling_rate :: "real list \<Rightarrow> real option" where
  "rolling_rate recentTimestamps =
     (if length recentTimestamps > 1
      then (let timeSpanSeconds = (last recentTimestamps - hd recentTimestamps) / 1000
            in if timeSpanSeconds > 0
               then js_div (real (length recentTimestamps - 1)) timeSpanSeconds
               else Some 0)
      else Some 0)"

definition recent :: "real \<Rightarrow> real list \<Rightarrow> real list" where
  "recent now ts = (let fiveSecondsAgo = now - 5000 in filter (\<lambda>t. t \<ge> fiveSecondsAgo) ts)"

definition rolling_measureRate_effect :: "real \<Rightarrow> 'a rolling_scheme \<Rightarrow> 'a rolling_scheme" where
  "rolling_measureRate_effect now s =
     (if \<not> measureRate s
      then s\<lparr>crossingsTimestampsRef := [], displayRate := Some 0\<rparr>
      else s\<lparr>crossingsTimestampsRef := [], lastUiUpdateTimeRef := now\<rparr>)"

definition rolling_setMeasureRate :: "bool \<Rightarrow> real \<Rightarrow> 'a rolling_scheme \<Rightarrow> 'a rolling_scheme" where
  "rolling_setMeasureRate b now s =
     (if measureRate s = b then s else rolling_measureRate_effect now (s\<lparr>measureRate := b\<rparr>))"

definition crossed_point :: "real \<Rightarrow> real \<Rightarrow> bool" where
  "crossed_point oldProgressMod newProgressMod \<longleftrightarrow>
     oldProgressMod < CROSSING_POINT \<and> newProgressMod \<ge> CROSSING_POINT"

section \<open>Water circuit: animation loop\<close>

definition PARTICLE_COUNT_W :: nat where
  "PARTICLE_COUNT_W = 40"

definition INITIAL_HEIGHT_DIFFERENCE :: real where
  "INITIAL_HEIGHT_DIFFERENCE = 50"

definition INITIAL_PIPE_WIDTH :: real where
  "INITIAL_PIPE_WIDTH = 50"

definition VOLUME_PER_PARTICLE :: real where
  "VOLUME_PER_PARTICLE = 0.05"

definition water_init :: water where
  "water_init =
     \<lparr>isPlaying = True, measureRate = False, displayRate = Some 0,
      particles = seed PARTICLE_COUNT_W,
      crossingsTimestampsRef = [], lastUiUpdateTimeRef = 0,
      heightDifference = INITIAL_HEIGHT_DIFFERENCE, pipeWidth = INITIAL_PIPE_WIDTH\<rparr>"

definition water_report :: "real \<Rightarrow> water \<Rightarrow> water" where
  "water_report now s =
     (if measureRate s \<and> now - lastUiUpdateTimeRef s > 100
      then (let recentTimestamps = recent now (crossingsTimestampsRef s);
                rate = rolling_rate recentTimestamps
            in s\<lparr>crossingsTimestampsRef := recentTimestamps,
                 displayRate := map_option (\<lambda>r. r * VOLUME_PER_PARTICLE) rate,
                 lastUiUpdateTimeRef := now\<rparr>)
      else s)"

definition water_speed :: "real \<Rightarrow> real \<Rightarrow> real \<Rightarrow> real" where
  "water_speed currentHeightDifference currentPipeWidth oldProgress =
     (let pumpSpeed = 3 * widthFactor currentPipeWidth;
          gravitySpeed = (0.5 + (currentHeightDifference / 100) * 4) * widthFactor currentPipeWidth;
          currentProgressMod = fmod oldProgress TOTAL_PATH_LENGTH
      in if currentProgressMod < 350 then gravitySpeed else pumpSpeed)"

text \<open>One particle of the \<^verbatim>\<open>map\<close>; \<open>tpush\<close> is the reading of the clock that is pushed.\<close>

definition water_step ::
  "real \<Rightarrow> real \<Rightarrow> bool \<Rightarrow> real \<Rightarrow> particle \<Rightarrow> real list \<Rightarrow> particle \<times> real list" where
  "water_step h w measuring tpush p crossings =
     (let speed = water_speed h w (progress p);
          oldProgressMod = fmod (progress p) TOTAL_PATH_LENGTH;
          newProgress = progress p + speed;
          newProgressMod = fmod newProgress TOTAL_PATH_LENGTH;
          crossings1 = (if measuring
                        then (if crossed_point oldProgressMod newProgressMod
                              then crossings @ [tpush] else crossings)
                        else crossings)
      in (p\<lparr>progress := newProgress\<rparr>, crossings1))"

definition water_runSimulation :: "real \<Rightarrow> real \<Rightarrow> water \<Rightarrow> water" where
  "water_runSimulation now tpush s =
     (let s1 = water_report now s
      in case map_acc (water_step (heightDifference s1) (pipeWidth s1) (measureRate s1) tpush)
                (particles s1) (crossingsTimestampsRef s1) of
           (ps, crossings) \<Rightarrow> s1\<lparr>particles := ps, crossingsTimestampsRef := crossings\<rparr>)"

definition water_handleReset :: "real \<Rightarrow> water \<Rightarrow> water" where
  "water_handleReset now s =
     rolling_setMeasureRate False now
       (s\<lparr>isPlaying := False, heightDifference := INITIAL_HEIGHT_DIFFERENCE,
          pipeWidth := INITIAL_PIPE_WIDTH, particles := seed PARTICLE_COUNT_W\<rparr>)"

datatype water_event =
  WFrame real real | WPlayPause | WSetHeightDifference real | WSetPipeWidth real
  | WSetMeasureRate bool real | WReset real

fun water_handle :: "water \<Rightarrow> water_event \<Rightarrow> water" where
  "water_handle s (WFrame now tpush) = (if isPlaying s then water_runSimulation now tpush s else s)"
| "water_handle s WPlayPause = s\<lparr>isPlaying := \<not> isPlaying s\<rparr>"
| "water_handle s (WSetHeightDifference h) = s\<lparr>heightDifference := h\<rparr>"
| "water_handle s (WSetPipeWidth w) = s\<lparr>pipeWidth := w\<rparr>"
| "water_handle s (WSetMeasureRate b now) = rolling_setMeasureRate b now s"
| "water_handle s (WReset now) = water_handleReset now s"

definition water_after :: "water_event list \<Rightarrow> water" where
  "water_after evs = foldl water_handle water_init evs"

section \<open>Playground slide: animation loop\<close>

definition KID_COUNT :: nat where
  "KID_COUNT = 15"

definition INITIAL_SLIDE_HEIGHT :: real where
  "INITIAL_SLIDE_HEIGHT = 50"

definition INITIAL_SLIDE_WIDTH :: real where
  "INITIAL_SLIDE_WIDTH = 50"

definition kid_init :: playground where
  "kid_init =
     \<lparr>isPlaying = True, measureRate = False, displayRate = Some 0,
      particles = seed KID_COUNT,
      crossingsTimestampsRef = [], lastUiUpdateTimeRef = 0,
      slideHeight = INITIAL_SLIDE_HEIGHT, slideWidth = INITIAL_SLIDE_WIDTH\<rparr>"

definition kid_report :: "real \<Rightarrow> playground \<Rightarrow> playground" where
  "kid_report now s =
     (if measureRate s \<and> now - lastUiUpdateTimeRef s > 100
      then (let recentTimestamps = recent now (crossingsTimestampsRef s);
                rate = rolling_rate recentTimestamps
            in s\<lparr>crossingsTimestampsRef := recentTimestamps,
                 displayRate := rate,
                 lastUiUpdateTimeRef := now\<rparr>)
      else s)"

definition kid_speed :: "real \<Rightarrow> real \<Rightarrow> real \<Rightarrow> real" where
  "kid_speed currentSlideHeight currentSlideWidth oldProgress =
     (let slideSpeed = (1.5 + (currentSlideHeight / 100) * 4) * widthFactor currentSlideWidth;
          runSpeed = 2 * widthFactor currentSlideWidth;
          elevatorSpeed = 3 * widthFactor currentSlideWidth;
          oldProgressMod = fmod oldProgress TOTAL_PATH_LENGTH
      in if oldProgressMod < 300 then slideSpeed
         else if oldProgressMod < 600 then runSpeed
         else elevatorSpeed)"

definition kid_step ::
  "real \<Rightarrow> real \<Rightarrow> bool \<Rightarrow> real \<Rightarrow> particle \<Rightarrow> real list \<Rightarrow> particle \<times> real list" where
  "kid_step h w measuring tpush k crossings =
     (let oldProgressMod = fmod (progress k) TOTAL_PATH_LENGTH;
          speed = kid_speed h w (progress k);
          newProgress = progress k + speed;
          newProgressMod = fmod newProgress TOTAL_PATH_LENGTH;
          crossings1 = (if measuring
                        then (if crossed_point oldProgressMod newProgressMod
                              then crossings @ [tpush] else crossings)
                        else crossings)
      in (k\<lparr>progress := newProgress\<rparr>, crossings1))"

definition kid_runSimulation :: "real \<Rightarrow> real \<Rightarrow> playground \<Rightarrow> playground" where
  "kid_runSimulation now tpush s =
     (let s1 = kid_report now s
      in case map_acc (kid_step (slideHeight s1) (slideWidth s1) (measureRate s1) tpush)
                (particles s1) (crossingsTimestampsRef s1) of
           (ks, crossings) \<Rightarrow> s1\<lparr>particles := ks, crossingsTimestampsRef := crossings\<rparr>)"

definition kid_handleReset :: "real \<Rightarrow> playground \<Rightarrow> playground" where
  "kid_handleReset now s =
     rolling_setMeasureRate False now
       (s\<lparr>isPlaying := False, slideHeight := INITIAL_SLIDE_HEIGHT,
          slideWidth := INITIAL_SLIDE_WIDTH, particles := seed KID_COUNT\<rparr>)"

datatype kid_event =
  KFrame real real | KPlayPause | KSetSlideHeight real | KSetSlideWidth real
  | KSetMeasureRate bool real | KReset real

fun kid_handle :: "playground \<Rightarrow> kid_event \<Rightarrow> playground" where
  "kid_handle s (KFrame now tpush) = (if isPlaying s then kid_runSimulation now tpush s else s)"
| "kid_handle s KPlayPause = s\<lparr>isPlaying := \<not> isPlaying s\<rparr>"
| "kid_handle s (KSetSlideHeight h) = s\<lparr>slideHeight := h\<rparr>"
| "kid_handle s (KSetSlideWidth w) = s\<lparr>slideWidth := w\<rparr>"
| "kid_handle s (KSetMeasureRate b now) = rolling_setMeasureRate b now s"
| "kid_handle s (KReset now) = kid_handleReset now s"

definition kid_after :: "kid_event list \<Rightarrow> playground" where
  "kid_after evs = foldl kid_handle kid_init evs"

section \<open>Auxiliary notions for the statements\<close>

text \<open>While measurement is off, the displayed rate is 0 and the counter or log is empty.\<close>

definition elec_idle :: "elec \<Rightarrow> bool" where
  "elec_idle s \<longleftrightarrow> measureRate s \<or> (displayRate s = Some 0 \<and> particlesCrossed s = 0)"

definition rolling_idle :: "'a rolling_scheme \<Rightarrow> bool" where
  "rolling_idle s \<longleftrightarrow> measureRate s \<or> (displayRate s = Some 0 \<and> crossingsTimestampsRef s = [])"

text \<open>The crossings the electric circuit detects in one frame, and over the frames at the
  given clock readings.\<close>

definition elec_crossings_in_frame :: "elec \<Rightarrow> int" where
  "elec_crossings_in_frame s =
     int (length (filter (\<lambda>p. elec_crossed (progress p) (progress p + elec_speed (voltage s)))
                    (particles s)))"

fun elec_crossings_over :: "elec \<Rightarrow> real list \<Rightarrow> int" where
  "elec_crossings_over s [] = 0"
| "elec_crossings_over s (t # ts) =
     elec_crossings_in_frame s + elec_crossings_over (elec_runSimulation t s) ts"

definition elec_frames :: "elec \<Rightarrow> real list \<Rightarrow> elec" where
  "elec_frames s ts = foldl (\<lambda>s t. elec_runSimulation t s) s ts"

text \<open>The vector from the position \<open>c\<close> to the position \<open>q\<close>, and the tolerance of
  the specification for two positions that are to agree.\<close>

definition displacement :: "'a point_scheme \<Rightarrow> 'b point_scheme \<Rightarrow> real \<times> real" where
  "displacement q c = (px q - px c, py q - py c)"

definition within_tolerance :: "'a point_scheme \<Rightarrow> 'b point_scheme \<Rightarrow> bool" where
  "within_tolerance a b \<longleftrightarrow> \<bar>px a - px b\<bar> \<le> 1 / 10 ^ 6 \<and> \<bar>py a - py b\<bar> \<le> 1 / 10 ^ 6"

text \<open>The crossing condition in the words of the specification: the checkpoint lies after
  the old and not after the new progress, both taken modulo the path length; when the new
  value is below the old one the progress has wrapped, and the interval runs through the
  end of the path.\<close>

definition spec_crossing :: "real \<Rightarrow> real \<Rightarrow> real \<Rightarrow> bool" where
  "spec_crossing checkpoint oldProgressMod newProgressMod \<longleftrightarrow>
     (if oldProgressMod \<le> newProgressMod
      then oldProgressMod < checkpoint \<and> checkpoint \<le> newProgressMod
      else oldProgressMod < checkpoint \<or> checkpoint \<le> newProgressMod)"

text \<open>The frames of one entity: \<open>step\<close> is its part of one frame, the list holds one setting
  (slider values, clock reading) for each frame.\<close>

fun entity_frames ::
  "('f \<Rightarrow> particle \<Rightarrow> 'a \<Rightarrow> particle \<times> 'a) \<Rightarrow> 'f list \<Rightarrow> particle \<Rightarrow> 'a \<Rightarrow> particle \<times> 'a" where
  "entity_frames step [] p acc = (p, acc)"
| "entity_frames step (f # fs) p acc =
     (case step f p acc of (p', acc') \<Rightarrow> entity_frames step fs p' acc')"

section \<open>The remainder\<close>

lemma fmod_nonneg_floor: "0 \<le> a \<Longrightarrow> fmod a 1000 = a - 1000 * of_int \<lfloor>a / 1000\<rfloor>"
  by (simp add: fmod_def trunc_def)

lemma fmod_range: "0 \<le> a \<Longrightarrow> 0 \<le> fmod a 1000 \<and> fmod a 1000 < 1000"
proof -
  assume a: "0 \<le> a"
  have "of_int \<lfloor>a / 1000\<rfloor> \<le> a / 1000" "a / 1000 < of_int \<lfloor>a / 1000\<rfloor> + 1"
    by linarith+
  then show ?thesis
    using a by (simp add: fmod_nonneg_floor field_simps)
qed

lemma fmod_idem: "fmod (fmod a 1000) 1000 = fmod a 1000"
proof (cases "0 \<le> a")
  case True
  then have "0 \<le> fmod a 1000 \<and> fmod a 1000 < 1000" by (rule fmod_range)
  then have "\<lfloor>fmod a 1000 / 1000\<rfloor> = 0" by (simp add: floor_eq_iff)
  then show ?thesis using True fmod_range[of a] by (simp add: fmod_nonneg_floor)
next
  case False
  then have neg: "a < 0" by simp
  have "of_int \<lceil>a / 1000\<rceil> - 1 < a / 1000" "a / 1000 \<le> of_int \<lceil>a / 1000\<rceil>"
    by linarith+
  then have "1000 * of_int \<lceil>a / 1000\<rceil> - 1000 < a" "a \<le> 1000 * of_int \<lceil>a / 1000\<rceil>"
    by linarith+
  then have r: "- 1000 < fmod a 1000" "fmod a 1000 \<le> 0"
    using neg by (simp_all add: fmod_def trunc_def)
  show ?thesis
  proof (cases "fmod a 1000 = 0")
    case True then show ?thesis by (simp add: fmod_def trunc_def)
  next
    case False
    with r have "fmod a 1000 < 0" by simp
    moreover from r have "\<lceil>fmod a 1000 / 1000\<rceil> = 0" by (simp add: ceiling_eq_iff)
    ultimately show ?thesis by (simp add: fmod_def[of "fmod a 1000"] trunc_def)
  qed
qed

lemma fmod_idem_L:
  "fmod (fmod a TOTAL_PATH_LENGTH) TOTAL_PATH_LENGTH = fmod a TOTAL_PATH_LENGTH"
  by (simp add: TOTAL_PATH_LENGTH_def fmod_idem)

lemma fmod_1005: "fmod (TOTAL_PATH_LENGTH + 5) TOTAL_PATH_LENGTH = fmod 5 TOTAL_PATH_LENGTH"
  by (simp add: fmod_def trunc_def TOTAL_PATH_LENGTH_def)

section \<open>Progress wraparound\<close>

text \<open>
  Claim C8.  Every position function looks at its progress argument only through the
  remainder modulo the path length: for every entity, entity count and geometry, the
  position at \<open>progress\<close> is the position at \<open>progress % 1000\<close>, and the position at
  \<open>TOTAL_PATH_LENGTH + 5\<close> is exactly the position at 5.
\<close>

theorem position_wraparound:
  "elec_getParticlePosition (fmod P TOTAL_PATH_LENGTH) i n w sw = elec_getParticlePosition P i n w sw
   \<and> water_getParticlePosition (fmod P TOTAL_PATH_LENGTH) i n w sw h
       = water_getParticlePosition P i n w sw h
   \<and> getKidPosition (fmod P TOTAL_PATH_LENGTH) i n w h = getKidPosition P i n w h
   \<and> elec_getParticlePosition (TOTAL_PATH_LENGTH + 5) i n w sw = elec_getParticlePosition 5 i n w sw
   \<and> water_getParticlePosition (TOTAL_PATH_LENGTH + 5) i n w sw h
       = water_getParticlePosition 5 i n w sw h
   \<and> getKidPosition (TOTAL_PATH_LENGTH + 5) i n w h = getKidPosition 5 i n w h"
  unfolding elec_getParticlePosition_def water_getParticlePosition_def getKidPosition_def
    fmod_1005 fmod_idem_L
  by (intro conjI refl)

section \<open>Speeds\<close>

lemma map_acc_fst: "(\<And>e a. fst (f e a) = g e) \<Longrightarrow> fst (map_acc f es acc) = map g es"
proof (induction es arbitrary: acc)
  case Nil
  show ?case by simp
next
  case (Cons e es)
  obtain e' acc1 where 1: "f e acc = (e', acc1)" by (cases "f e acc")
  obtain es' acc2 where 2: "map_acc f es acc1 = (es', acc2)" by (cases "map_acc f es acc1")
  from Cons.prems[of e acc] 1 have "e' = g e" by simp
  moreover from Cons.IH[OF Cons.prems, of acc1] 2 have "es' = map g es" by simp
  ultimately show ?case using 1 2 by simp
qed

lemma elec_report_same:
  "particles (elec_report now s) = particles s" "voltage (elec_report now s) = voltage s"
  by (simp_all add: elec_report_def)

lemma water_report_same:
  "particles (water_report now s) = particles s"
  "heightDifference (water_report now s) = heightDifference s"
  "pipeWidth (water_report now s) = pipeWidth s"
  by (simp_all add: water_report_def Let_def)

lemma kid_report_same:
  "particles (kid_report now s) = particles s"
  "slideHeight (kid_report now s) = slideHeight s"
  "slideWidth (kid_report now s) = slideWidth s"
  by (simp_all add: kid_report_def Let_def)

lemma elec_run_particles:
  "particles (elec_runSimulation now s)
     = map (\<lambda>p. p\<lparr>progress := progress p + elec_speed (voltage s)\<rparr>) (particles s)"
proof -
  let ?s1 = "elec_report now s"
  obtain ps c where mc:
    "map_acc (elec_step (elec_speed (voltage ?s1)) (measureRate ?s1)) (particles ?s1)
       (particlesCrossed ?s1) = (ps, c)"
    by (cases "map_acc (elec_step (elec_speed (voltage ?s1)) (measureRate ?s1)) (particles ?s1)
       (particlesCrossed ?s1)")
  have "fst (map_acc (elec_step (elec_speed (voltage ?s1)) (measureRate ?s1)) (particles ?s1)
       (particlesCrossed ?s1))
          = map (\<lambda>p. p\<lparr>progress := progress p + elec_speed (voltage ?s1)\<rparr>) (particles ?s1)"
    by (rule map_acc_fst) (simp add: elec_step_def Let_def)
  with mc have "ps = map (\<lambda>p. p\<lparr>progress := progress p + elec_speed (voltage s)\<rparr>) (particles s)"
    by (simp add: elec_report_same)
  moreover have "elec_runSimulation now s = ?s1\<lparr>particles := ps, particlesCrossed := c\<rparr>"
    unfolding elec_runSimulation_def Let_def mc by simp
  ultimately show ?thesis by (simp add: elec_report_same)
qed

lemma water_run_particles:
  "particles (water_runSimulation now t s)
     = map (\<lambda>p. p\<lparr>progress := progress p + water_speed (heightDifference s) (pipeWidth s) (progress p)\<rparr>)
         (particles s)"
proof -
  let ?s1 = "water_report now s"
  let ?f = "water_step (heightDifference ?s1) (pipeWidth ?s1) (measureRate ?s1) t"
  obtain ps c where mc: "map_acc ?f (particles ?s1) (crossingsTimestampsRef ?s1) = (ps, c)"
    by (cases "map_acc ?f (particles ?s1) (crossingsTimestampsRef ?s1)")
  have "fst (map_acc ?f (particles ?s1) (crossingsTimestampsRef ?s1))
          = map (\<lambda>p. p\<lparr>progress := progress p
                   + water_speed (heightDifference ?s1) (pipeWidth ?s1) (progress p)\<rparr>) (particles ?s1)"
    by (rule map_acc_fst) (simp add: water_step_def Let_def)
  with mc have "ps = map (\<lambda>p. p\<lparr>progress := progress p
                   + water_speed (heightDifference s) (pipeWidth s) (progress p)\<rparr>) (particles s)"
    by (simp add: water_report_same)
  moreover have "water_runSimulation now t s = ?s1\<lparr>particles := ps, crossingsTimestampsRef := c\<rparr>"
    unfolding water_runSimulation_def Let_def mc by simp
  ultimately show ?thesis by (simp add: water_report_same)
qed

lemma kid_run_particles:
  "particles (kid_runSimulation now t s)
     = map (\<lambda>p. p\<lparr>progress := progress p + kid_speed (slideHeight s) (slideWidth s) (progress p)\<rparr>)
         (particles s)"
proof -
  let ?s1 = "kid_report now s"
  let ?f = "kid_step (slideHeight ?s1) (slideWidth ?s1) (measureRate ?s1) t"
  obtain ps c where mc: "map_acc ?f (particles ?s1) (crossingsTimestampsRef ?s1) = (ps, c)"
    by (cases "map_acc ?f (particles ?s1) (crossingsTimestampsRef ?s1)")
  have "fst (map_acc ?f (particles ?s1) (crossingsTimestampsRef ?s1))
          = map (\<lambda>p. p\<lparr>progress := progress p
                   + kid_speed (slideHeight ?s1) (slideWidth ?s1) (progress p)\<rparr>) (particles ?s1)"
    by (rule map_acc_fst) (simp add: kid_step_def Let_def)
  with mc have "ps = map (\<lambda>p. p\<lparr>progress := progress p
                   + kid_speed (slideHeight s) (slideWidth s) (progress p)\<rparr>) (particles s)"
    by (simp add: kid_report_same)
  moreover have "kid_runSimulation now t s = ?s1\<lparr>particles := ps, crossingsTimestampsRef := c\<rparr>"
    unfolding kid_runSimulation_def Let_def mc by simp
  ultimately show ?thesis by (simp add: kid_report_same)
qed

text \<open>
  Claim C3.  One animation frame adds to the progress of every entity exactly the speed
  of the specification: \<open>(voltage / 100) * 4\<close> in the electric circuit, whatever the wire
  width; in the water circuit the gravity speed below 350 and the pump speed from there
  on; on the playground the slide speed below 300, the run speed below 600 and the
  elevator speed from there on; each of the last two scaled by the width factor of the
  current width.
\<close>

theorem speeds_per_tick:
  "map progress (particles (elec_runSimulation now e))
     = map (\<lambda>p. progress p + (voltage e / 100) * 4) (particles e)
   \<and> particles (elec_runSimulation now (e\<lparr>wireWidth := ww\<rparr>)) = particles (elec_runSimulation now e)
   \<and> map progress (particles (water_runSimulation now t ws))
     = map (\<lambda>p. progress p
              + (if fmod (progress p) 1000 < 350
                 then (0.5 + (heightDifference ws / 100) * 4) * (0.2 + 0.8 * ((pipeWidth ws - 10) / 90))
                 else 3 * (0.2 + 0.8 * ((pipeWidth ws - 10) / 90))))
         (particles ws)
   \<and> map progress (particles (kid_runSimulation now t ks))
     = map (\<lambda>p. progress p
              + (if fmod (progress p) 1000 < 300
                 then (1.5 + (slideHeight ks / 100) * 4) * (0.2 + 0.8 * ((slideWidth ks - 10) / 90))
                 else if fmod (progress p) 1000 < 600
                 then 2 * (0.2 + 0.8 * ((slideWidth ks - 10) / 90))
                 else 3 * (0.2 + 0.8 * ((slideWidth ks - 10) / 90))))
         (particles ks)"
  by (simp add: elec_run_particles water_run_particles kid_run_particles o_def
      elec_speed_def water_speed_def kid_speed_def widthFactor_def TOTAL_PATH_LENGTH_def Let_def)

section \<open>Rate estimators\<close>

lemma rolling_rate_finite: "\<exists>r. rolling_rate ts = Some r"
  by (simp add: rolling_rate_def js_div_def Let_def)

lemma rolling_rate_short: "length ts < 2 \<Longrightarrow> rolling_rate ts = Some 0"
  by (simp add: rolling_rate_def)

lemma rolling_rate_span:
  "2 \<le> length ts \<Longrightarrow> hd ts < last ts \<Longrightarrow>
     rolling_rate ts = Some (real (length ts - 1) / ((last ts - hd ts) / 1000))"
  by (simp add: rolling_rate_def js_div_def Let_def)

lemma rolling_rate_zero_span: "last ts = hd ts \<Longrightarrow> rolling_rate ts = Some 0"
  by (simp add: rolling_rate_def Let_def)

lemma recent_filter: "recent now ts = filter (\<lambda>t. now - 5000 \<le> t) ts"
  by (simp add: recent_def)

lemma water_report_pass:
  assumes "measureRate s" "now - lastUiUpdateTimeRef s > 100"
  shows "crossingsTimestampsRef (water_report now s) = recent now (crossingsTimestampsRef s)"
    and "lastUiUpdateTimeRef (water_report now s) = now"
    and "displayRate (water_report now s)
           = map_option (\<lambda>r. r * VOLUME_PER_PARTICLE) (rolling_rate (recent now (crossingsTimestampsRef s)))"
    and "measureRate (water_report now s)"
  using assms by (simp_all add: water_report_def Let_def)

lemma water_report_skip:
  "\<not> (measureRate s \<and> now - lastUiUpdateTimeRef s > 100) \<Longrightarrow> water_report now s = s"
  by (auto simp: water_report_def)

lemma kid_report_pass:
  assumes "measureRate s" "now - lastUiUpdateTimeRef s > 100"
  shows "crossingsTimestampsRef (kid_report now s) = recent now (crossingsTimestampsRef s)"
    and "lastUiUpdateTimeRef (kid_report now s) = now"
    and "displayRate (kid_report now s) = rolling_rate (recent now (crossingsTimestampsRef s))"
    and "measureRate (kid_report now s)"
  using assms by (simp_all add: kid_report_def Let_def)

lemma kid_report_skip:
  "\<not> (measureRate s \<and> now - lastUiUpdateTimeRef s > 100) \<Longrightarrow> kid_report now s = s"
  by (auto simp: kid_report_def)

lemma example_rate: "rolling_rate (filter (\<lambda>t. 2000 - 5000 \<le> t) [0, 1000, 2000]) = Some 1"
  by (simp add: rolling_rate_def js_div_def)

text \<open>
  Claim C4.  A rate-estimation pass of the water circuit and of the playground runs only
  when measurement is on and more than 100 ms have passed since the last pass, and it sets
  the time of the last pass to now (so passes are more than 100 ms apart).  It keeps of
  the log exactly the timestamps not older than 5 seconds, and from the kept ones computes
  the rate \<open>(n - 1) / timeSpanSeconds\<close>, the span being that between the oldest and the
  newest; with fewer than two kept timestamps the rate is 0.  The water circuit displays
  the rate times the volume per particle.  The timestamps 0, 1000, 2000 queried at 2000
  give the rate 1 exactly, a single timestamp gives 0.
\<close>

theorem rolling_window_estimate:
  fixes ws :: water and ks :: playground
  shows
  "(measureRate ws \<and> now - lastUiUpdateTimeRef ws > 100 \<longrightarrow>
      (let ts = filter (\<lambda>t. now - 5000 \<le> t) (crossingsTimestampsRef ws);
           s' = water_report now ws
       in crossingsTimestampsRef s' = ts \<and> lastUiUpdateTimeRef s' = now
          \<and> (length ts < 2 \<longrightarrow> displayRate s' = Some 0)
          \<and> (2 \<le> length ts \<and> hd ts < last ts \<longrightarrow>
               displayRate s'
                 = Some (real (length ts - 1) / ((last ts - hd ts) / 1000) * VOLUME_PER_PARTICLE))))
   \<and> (\<not> (measureRate ws \<and> now - lastUiUpdateTimeRef ws > 100) \<longrightarrow> water_report now ws = ws)
   \<and> (measureRate ks \<and> now - lastUiUpdateTimeRef ks > 100 \<longrightarrow>
      (let ts = filter (\<lambda>t. now - 5000 \<le> t) (crossingsTimestampsRef ks);
           s' = kid_report now ks
       in crossingsTimestampsRef s' = ts \<and> lastUiUpdateTimeRef s' = now
          \<and> (length ts < 2 \<longrightarrow> displayRate s' = Some 0)
          \<and> (2 \<le> length ts \<and> hd ts < last ts \<longrightarrow>
               displayRate s' = Some (real (length ts - 1) / ((last ts - hd ts) / 1000)))))
   \<and> (\<not> (measureRate ks \<and> now - lastUiUpdateTimeRef ks > 100) \<longrightarrow> kid_report now ks = ks)
   \<and> rolling_rate (filter (\<lambda>t. 2000 - 5000 \<le> t) [0, 1000, 2000]) = Some 1
   \<and> rolling_rate [t] = Some 0"
proof -
  have w: "measureRate ws \<and> now - lastUiUpdateTimeRef ws > 100 \<longrightarrow>
      (let ts = filter (\<lambda>t. now - 5000 \<le> t) (crossingsTimestampsRef ws);
           s' = water_report now ws
       in crossingsTimestampsRef s' = ts \<and> lastUiUpdateTimeRef s' = now
          \<and> (length ts < 2 \<longrightarrow> displayRate s' = Some 0)
          \<and> (2 \<le> length ts \<and> hd ts < last ts \<longrightarrow>
               displayRate s'
                 = Some (real (length ts - 1) / ((last ts - hd ts) / 1000) * VOLUME_PER_PARTICLE)))"
    unfolding Let_def recent_filter[symmetric]
    by (auto simp: water_report_pass rolling_rate_short rolling_rate_span)
  have k: "measureRate ks \<and> now - lastUiUpdateTimeRef ks > 100 \<longrightarrow>
      (let ts = filter (\<lambda>t. now - 5000 \<le> t) (crossingsTimestampsRef ks);
           s' = kid_report now ks
       in crossingsTimestampsRef s' = ts \<and> lastUiUpdateTimeRef s' = now
          \<and> (length ts < 2 \<longrightarrow> displayRate s' = Some 0)
          \<and> (2 \<le> length ts \<and> hd ts < last ts \<longrightarrow>
               displayRate s' = Some (real (length ts - 1) / ((last ts - hd ts) / 1000))))"
    unfolding Let_def recent_filter[symmetric]
    by (auto simp: kid_report_pass rolling_rate_short rolling_rate_span)
  have s: "rolling_rate [t] = Some 0"
    by (simp add: rolling_rate_short)
  from w k s example_rate water_report_skip[of ws now] kid_report_skip[of ks now]
  show ?thesis by blast
qed


theorem rolling_window_estimate_witness:
  "displayRate (water_report 2000
      (water_init\<lparr>measureRate := True, crossingsTimestampsRef := [0, 1000, 2000]\<rparr>)) = Some 0.05
   \<and> crossingsTimestampsRef (kid_report 7000
      (kid_init\<lparr>measureRate := True, crossingsTimestampsRef := [1000, 6000]\<rparr>)) = [6000]
   \<and> displayRate (kid_report 7000
      (kid_init\<lparr>measureRate := True, crossingsTimestampsRef := [1000, 6000]\<rparr>)) = Some 0
   \<and> water_report 50 (water_init\<lparr>measureRate := True\<rparr>) = water_init\<lparr>measureRate := True\<rparr>
   \<and> kid_report 7000 kid_init = kid_init"
proof -
  let ?w = "water_init\<lparr>measureRate := True, crossingsTimestampsRef := [0, 1000, 2000]\<rparr>"
  let ?k = "kid_init\<lparr>measureRate := True, crossingsTimestampsRef := [1000, 6000]\<rparr>"
  let ?w2 = "water_init\<lparr>measureRate := True\<rparr>"
  have hw: "measureRate ?w \<and> 2000 - lastUiUpdateTimeRef ?w > 100"
    by (simp add: water_init_def)
  have fw: "filter (\<lambda>t. 2000 - 5000 \<le> t) (crossingsTimestampsRef ?w) = [0, 1000, 2000]"
    by simp
  have hk: "measureRate ?k \<and> 7000 - lastUiUpdateTimeRef ?k > 100"
    by (simp add: kid_init_def)
  have fk: "filter (\<lambda>t. 7000 - 5000 \<le> t) (crossingsTimestampsRef ?k) = [6000]"
    by simp
  have hw2: "\<not> (measureRate ?w2 \<and> 50 - lastUiUpdateTimeRef ?w2 > 100)"
    by (simp add: water_init_def)
  have hk2: "\<not> (measureRate kid_init \<and> 7000 - lastUiUpdateTimeRef kid_init > 100)"
    by (simp add: kid_init_def)
  note a = rolling_window_estimate[of ?w 2000 ?k 0]
  note b = rolling_window_estimate[of ?w2 7000 ?k 0]
  note c = rolling_window_estimate[of ?w2 50 kid_init 0]
  from a hw have "displayRate (water_report 2000 ?w) = Some 0.05"
    unfolding Let_def fw by (simp add: VOLUME_PER_PARTICLE_def)
  moreover from b hk have "crossingsTimestampsRef (kid_report 7000 ?k) = [6000]"
    "displayRate (kid_report 7000 ?k) = Some 0"
    unfolding Let_def fk by simp_all
  moreover from c hw2 have "water_report 50 ?w2 = ?w2" by blast
  moreover from rolling_window_estimate[of ?w2 7000 kid_init 0] hk2 have "kid_report 7000 kid_init = kid_init" by blast
  ultimately show ?thesis by blast
qed


section \<open>Invariants of the components\<close>

lemma foldl_invariant:
  assumes "I s" and "\<And>s e. I s \<Longrightarrow> I (f s e)"
  shows "I (foldl f s es)"
  using assms(1) by (induction es arbitrary: s) (simp_all add: assms(2))

lemma map_acc_snd_same: "(\<And>e a. snd (f e a) = a) \<Longrightarrow> snd (map_acc f es acc) = acc"
proof (induction es arbitrary: acc)
  case Nil
  show ?case by simp
next
  case (Cons e es)
  obtain e' acc1 where 1: "f e acc = (e', acc1)" by (cases "f e acc")
  obtain es' acc2 where 2: "map_acc f es acc1 = (es', acc2)" by (cases "map_acc f es acc1")
  from Cons.prems[of e acc] 1 have "acc1 = acc" by simp
  moreover from Cons.IH[OF Cons.prems, of acc1] 2 have "acc2 = acc1" by simp
  ultimately show ?case using 1 2 by simp
qed

lemma elec_run_unfold:
  "elec_runSimulation now s =
     (elec_report now s)
       \<lparr>particles := fst (map_acc (elec_step (elec_speed (voltage (elec_report now s)))
                              (measureRate (elec_report now s)))
                            (particles (elec_report now s)) (particlesCrossed (elec_report now s))),
        particlesCrossed := snd (map_acc (elec_step (elec_speed (voltage (elec_report now s)))
                              (measureRate (elec_report now s)))
                            (particles (elec_report now s)) (particlesCrossed (elec_report now s)))\<rparr>"
  by (simp add: elec_runSimulation_def Let_def case_prod_beta)

lemma water_run_unfold:
  "water_runSimulation now t s =
     (water_report now s)
       \<lparr>particles := fst (map_acc (water_step (heightDifference (water_report now s))
                              (pipeWidth (water_report now s)) (measureRate (water_report now s)) t)
                            (particles (water_report now s))
                            (crossingsTimestampsRef (water_report now s))),
        crossingsTimestampsRef := snd (map_acc (water_step (heightDifference (water_report now s))
                              (pipeWidth (water_report now s)) (measureRate (water_report now s)) t)
                            (particles (water_report now s))
                            (crossingsTimestampsRef (water_report now s)))\<rparr>"
  by (simp add: water_runSimulation_def Let_def case_prod_beta)

lemma kid_run_unfold:
  "kid_runSimulation now t s =
     (kid_report now s)
       \<lparr>particles := fst (map_acc (kid_step (slideHeight (kid_report now s))
                              (slideWidth (kid_report now s)) (measureRate (kid_report now s)) t)
                            (particles (kid_report now s))
                            (crossingsTimestampsRef (kid_report now s))),
        crossingsTimestampsRef := snd (map_acc (kid_step (slideHeight (kid_report now s))
                              (slideWidth (kid_report now s)) (measureRate (kid_report now s)) t)
                            (particles (kid_report now s))
                            (crossingsTimestampsRef (kid_report now s)))\<rparr>"
  by (simp add: kid_runSimulation_def Let_def case_prod_beta)

lemma elec_report_off: "\<not> measureRate s \<Longrightarrow> elec_report now s = s"
  by (simp add: elec_report_def)

lemma elec_step_off: "snd (elec_step speed False p c) = c"
  by (simp add: elec_step_def Let_def)

lemma water_step_off: "snd (water_step h w False t p c) = c"
  by (simp add: water_step_def Let_def)

lemma kid_step_off: "snd (kid_step h w False t p c) = c"
  by (simp add: kid_step_def Let_def)

lemma elec_setMeasureRate_idle: "elec_idle s \<Longrightarrow> elec_idle (elec_setMeasureRate b now s)"
  by (cases b) (auto simp: elec_idle_def elec_setMeasureRate_def elec_measureRate_effect_def)

lemma rolling_setMeasureRate_idle:
  "rolling_idle s \<Longrightarrow> rolling_idle (rolling_setMeasureRate b now s)"
  by (cases b)
     (auto simp: rolling_idle_def rolling_setMeasureRate_def rolling_measureRate_effect_def)

lemma elec_run_idle: "elec_idle s \<Longrightarrow> elec_idle (elec_runSimulation now s)"
proof (cases "measureRate s")
  case True
  then have "measureRate (elec_report now s)" by (simp add: elec_report_def)
  then show ?thesis by (simp add: elec_run_unfold elec_idle_def)
next
  case False
  assume "elec_idle s"
  with False have 0: "displayRate s = Some 0" "particlesCrossed s = 0"
    by (simp_all add: elec_idle_def)
  have "snd (map_acc (elec_step (elec_speed (voltage s)) False) (particles s) (particlesCrossed s))
          = particlesCrossed s"
    by (rule map_acc_snd_same) (rule elec_step_off)
  with False 0 show ?thesis
    by (simp add: elec_run_unfold elec_report_off elec_idle_def)
qed

lemma water_run_idle: "rolling_idle s \<Longrightarrow> rolling_idle (water_runSimulation now t s)"
proof (cases "measureRate s")
  case True
  then have "measureRate (water_report now s)" by (simp add: water_report_def Let_def)
  then show ?thesis by (simp add: water_run_unfold rolling_idle_def)
next
  case False
  assume "rolling_idle s"
  with False have 0: "displayRate s = Some 0" "crossingsTimestampsRef s = []"
    by (simp_all add: rolling_idle_def)
  have "snd (map_acc (water_step (heightDifference s) (pipeWidth s) False t) (particles s)
          (crossingsTimestampsRef s)) = crossingsTimestampsRef s"
    by (rule map_acc_snd_same) (rule water_step_off)
  with False 0 show ?thesis
    by (simp add: water_run_unfold water_report_skip rolling_idle_def)
qed

lemma kid_run_idle: "rolling_idle s \<Longrightarrow> rolling_idle (kid_runSimulation now t s)"
proof (cases "measureRate s")
  case True
  then have "measureRate (kid_report now s)" by (simp add: kid_report_def Let_def)
  then show ?thesis by (simp add: kid_run_unfold rolling_idle_def)
next
  case False
  assume "rolling_idle s"
  with False have 0: "displayRate s = Some 0" "crossingsTimestampsRef s = []"
    by (simp_all add: rolling_idle_def)
  have "snd (map_acc (kid_step (slideHeight s) (slideWidth s) False t) (particles s)
          (crossingsTimestampsRef s)) = crossingsTimestampsRef s"
    by (rule map_acc_snd_same) (rule kid_step_off)
  with False 0 show ?thesis
    by (simp add: kid_run_unfold kid_report_skip rolling_idle_def)
qed

lemma elec_handle_idle: "elec_idle s \<Longrightarrow> elec_idle (elec_handle s e)"
proof (cases e)
  case (EFrame now)
  assume "elec_idle s" then show ?thesis using EFrame by (simp add: elec_run_idle)
next
  case (ESetMeasureRate b now)
  assume "elec_idle s" then show ?thesis
    using ESetMeasureRate by (simp add: elec_setMeasureRate_idle)
next
  case (EReset now)
  assume "elec_idle s"
  then have "elec_idle (s\<lparr>isPlaying := False, voltage := INITIAL_VOLTAGE,
      wireWidth := INITIAL_WIRE_WIDTH, particles := seed PARTICLE_COUNT_E\<rparr>)"
    by (simp add: elec_idle_def)
  then show ?thesis
    using EReset by (simp add: elec_handleReset_def elec_setMeasureRate_idle)
qed (simp_all add: elec_idle_def)

lemma water_handle_idle: "rolling_idle s \<Longrightarrow> rolling_idle (water_handle s e)"
proof (cases e)
  case (WFrame now t)
  assume "rolling_idle s" then show ?thesis using WFrame by (simp add: water_run_idle)
next
  case (WSetMeasureRate b now)
  assume "rolling_idle s" then show ?thesis
    using WSetMeasureRate by (simp add: rolling_setMeasureRate_idle)
next
  case (WReset now)
  assume "rolling_idle s"
  then have "rolling_idle (s\<lparr>isPlaying := False, heightDifference := INITIAL_HEIGHT_DIFFERENCE,
          pipeWidth := INITIAL_PIPE_WIDTH, particles := seed PARTICLE_COUNT_W\<rparr>)"
    by (simp add: rolling_idle_def)
  then show ?thesis
    using WReset by (simp add: water_handleReset_def rolling_setMeasureRate_idle)
qed (simp_all add: rolling_idle_def)

lemma kid_handle_idle: "rolling_idle s \<Longrightarrow> rolling_idle (kid_handle s e)"
proof (cases e)
  case (KFrame now t)
  assume "rolling_idle s" then show ?thesis using KFrame by (simp add: kid_run_idle)
next
  case (KSetMeasureRate b now)
  assume "rolling_idle s" then show ?thesis
    using KSetMeasureRate by (simp add: rolling_setMeasureRate_idle)
next
  case (KReset now)
  assume "rolling_idle s"
  then have "rolling_idle (s\<lparr>isPlaying := False, slideHeight := INITIAL_SLIDE_HEIGHT,
          slideWidth := INITIAL_SLIDE_WIDTH, particles := seed KID_COUNT\<rparr>)"
    by (simp add: rolling_idle_def)
  then show ?thesis
    using KReset by (simp add: kid_handleReset_def rolling_setMeasureRate_idle)
qed (simp_all add: rolling_idle_def)

lemma elec_after_idle: "elec_idle (elec_after t0 evs)"
  unfolding elec_after_def
  by (rule foldl_invariant) (simp_all add: elec_idle_def elec_init_def elec_handle_idle[unfolded elec_idle_def])

lemma water_after_idle: "rolling_idle (water_after evs)"
  unfolding water_after_def
  by (rule foldl_invariant[where I = rolling_idle])
     (simp_all add: rolling_idle_def water_init_def water_handle_idle[unfolded rolling_idle_def])

lemma kid_after_idle: "rolling_idle (kid_after evs)"
  unfolding kid_after_def
  by (rule foldl_invariant[where I = rolling_idle])
     (simp_all add: rolling_idle_def kid_init_def kid_handle_idle[unfolded rolling_idle_def])


section \<open>Reset\<close>

lemma seed_progress:
  "map progress (seed n) = map (\<lambda>i. (real i / real n) * 1000) [0..<n]"
  "map ident (seed n) = map int [0..<n]"
  by (simp_all add: seed_def o_def TOTAL_PATH_LENGTH_def)

lemma elec_reset_fields:
  assumes "elec_idle s"
  shows "particles (elec_handleReset now s) = seed PARTICLE_COUNT_E"
    and "isPlaying (elec_handleReset now s) = False"
    and "voltage (elec_handleReset now s) = INITIAL_VOLTAGE"
    and "wireWidth (elec_handleReset now s) = INITIAL_WIRE_WIDTH"
    and "measureRate (elec_handleReset now s) = False"
    and "displayRate (elec_handleReset now s) = Some 0"
  using assms
  by (auto simp: elec_handleReset_def elec_setMeasureRate_def elec_measureRate_effect_def
      elec_idle_def)

lemma water_reset_fields:
  assumes "rolling_idle s"
  shows "particles (water_handleReset now s) = seed PARTICLE_COUNT_W"
    and "isPlaying (water_handleReset now s) = False"
    and "heightDifference (water_handleReset now s) = INITIAL_HEIGHT_DIFFERENCE"
    and "pipeWidth (water_handleReset now s) = INITIAL_PIPE_WIDTH"
    and "measureRate (water_handleReset now s) = False"
    and "displayRate (water_handleReset now s) = Some 0"
  using assms
  by (auto simp: water_handleReset_def rolling_setMeasureRate_def rolling_measureRate_effect_def
      rolling_idle_def)

lemma kid_reset_fields:
  assumes "rolling_idle s"
  shows "particles (kid_handleReset now s) = seed KID_COUNT"
    and "isPlaying (kid_handleReset now s) = False"
    and "slideHeight (kid_handleReset now s) = INITIAL_SLIDE_HEIGHT"
    and "slideWidth (kid_handleReset now s) = INITIAL_SLIDE_WIDTH"
    and "measureRate (kid_handleReset now s) = False"
    and "displayRate (kid_handleReset now s) = Some 0"
  using assms
  by (auto simp: kid_handleReset_def rolling_setMeasureRate_def rolling_measureRate_effect_def
      rolling_idle_def)

text \<open>
  Claim C6.  After any sequence of frames and user actions, reset leaves every simulation
  with its entities at \<open>progress_i = (i / count) * 1000\<close> for \<open>i = 0..count - 1\<close>, not
  playing, both parameters at 50, measurement off and a displayed rate of 0.
\<close>

theorem reset_restores_initial:
  "(let s = elec_handleReset now (elec_after t0 evs)
    in map progress (particles s) = map (\<lambda>i. (real i / 30) * 1000) [0..<30]
       \<and> map ident (particles s) = map int [0..<30]
       \<and> isPlaying s = False \<and> voltage s = 50 \<and> wireWidth s = 50
       \<and> measureRate s = False \<and> displayRate s = Some 0)
   \<and> (let s = water_handleReset now (water_after wevs)
    in map progress (particles s) = map (\<lambda>i. (real i / 40) * 1000) [0..<40]
       \<and> map ident (particles s) = map int [0..<40]
       \<and> isPlaying s = False \<and> heightDifference s = 50 \<and> pipeWidth s = 50
       \<and> measureRate s = False \<and> displayRate s = Some 0)
   \<and> (let s = kid_handleReset now (kid_after kevs)
    in map progress (particles s) = map (\<lambda>i. (real i / 15) * 1000) [0..<15]
       \<and> map ident (particles s) = map int [0..<15]
       \<and> isPlaying s = False \<and> slideHeight s = 50 \<and> slideWidth s = 50
       \<and> measureRate s = False \<and> displayRate s = Some 0)"
proof -
  note e = elec_reset_fields[OF elec_after_idle, of now t0 evs]
  note w = water_reset_fields[OF water_after_idle, of now wevs]
  note k = kid_reset_fields[OF kid_after_idle, of now kevs]
  have "map progress (seed PARTICLE_COUNT_E) = map (\<lambda>i. (real i / 30) * 1000) [0..<30]"
    "map ident (seed PARTICLE_COUNT_E) = map int [0..<30]"
    "map progress (seed PARTICLE_COUNT_W) = map (\<lambda>i. (real i / 40) * 1000) [0..<40]"
    "map ident (seed PARTICLE_COUNT_W) = map int [0..<40]"
    "map progress (seed KID_COUNT) = map (\<lambda>i. (real i / 15) * 1000) [0..<15]"
    "map ident (seed KID_COUNT) = map int [0..<15]"
    unfolding seed_progress PARTICLE_COUNT_E_def PARTICLE_COUNT_W_def KID_COUNT_def by simp_all
  with e w k show ?thesis
    unfolding Let_def
    by (simp add: INITIAL_VOLTAGE_def INITIAL_WIRE_WIDTH_def INITIAL_HEIGHT_DIFFERENCE_def
        INITIAL_PIPE_WIDTH_def INITIAL_SLIDE_HEIGHT_def INITIAL_SLIDE_WIDTH_def)
qed


section \<open>The one-second bucket of the electric circuit\<close>

lemma elec_count_acc:
  "snd (map_acc (elec_step sp True) ps c)
     = c + int (length (filter (\<lambda>p. elec_crossed (progress p) (progress p + sp)) ps))"
proof (induction ps arbitrary: c)
  case Nil
  show ?case by simp
next
  case (Cons p ps)
  obtain p' c1 where 1: "elec_step sp True p c = (p', c1)" by (cases "elec_step sp True p c")
  obtain ps' c2 where 2: "map_acc (elec_step sp True) ps c1 = (ps', c2)"
    by (cases "map_acc (elec_step sp True) ps c1")
  from 1 have "c1 = (if elec_crossed (progress p) (progress p + sp) then c + 1 else c)"
    by (auto simp: elec_step_def Let_def)
  moreover from Cons.IH[of c1] 2
  have "c2 = c1 + int (length (filter (\<lambda>p. elec_crossed (progress p) (progress p + sp)) ps))"
    by simp
  ultimately show ?case using 1 2 by simp
qed

lemma elec_report_boundary:
  assumes "measureRate s" "now - lastMeasureTime s \<ge> 1000"
  shows "displayRate (elec_report now s) = Some (of_int (particlesCrossed s) * CHARGE_PER_PARTICLE)"
    and "particlesCrossed (elec_report now s) = 0"
    and "lastMeasureTime (elec_report now s) = now"
  using assms by (simp_all add: elec_report_def)

lemma elec_report_inside:
  "measureRate s \<Longrightarrow> now - lastMeasureTime s < 1000 \<Longrightarrow> elec_report now s = s"
  by (simp add: elec_report_def)

lemma elec_report_keeps:
  "measureRate (elec_report now s) = measureRate s"
  by (simp add: elec_report_def)

lemma elec_run_keeps:
  "measureRate (elec_runSimulation now s) = measureRate s"
  "voltage (elec_runSimulation now s) = voltage s"
  "lastMeasureTime (elec_runSimulation now s) = lastMeasureTime (elec_report now s)"
  "displayRate (elec_runSimulation now s) = displayRate (elec_report now s)"
  by (simp_all add: elec_run_unfold elec_report_keeps elec_report_same)

lemma elec_run_count:
  assumes "measureRate s"
  shows "particlesCrossed (elec_runSimulation now s)
           = particlesCrossed (elec_report now s) + elec_crossings_in_frame s"
  using assms
  by (simp add: elec_run_unfold elec_count_acc elec_crossings_in_frame_def elec_report_keeps
      elec_report_same)

lemma elec_frames_bucket:
  assumes "measureRate s" and "\<forall>t \<in> set ts. t - lastMeasureTime s < 1000"
  shows "measureRate (elec_frames s ts)
         \<and> lastMeasureTime (elec_frames s ts) = lastMeasureTime s
         \<and> particlesCrossed (elec_frames s ts) = particlesCrossed s + elec_crossings_over s ts"
  using assms
proof (induction ts arbitrary: s)
  case Nil
  then show ?case by (simp add: elec_frames_def)
next
  case (Cons t ts)
  let ?s1 = "elec_runSimulation t s"
  from Cons.prems have t: "t - lastMeasureTime s < 1000" by simp
  with Cons.prems(1) have r: "elec_report t s = s" by (rule elec_report_inside)
  have m: "measureRate ?s1" using Cons.prems(1) by (simp add: elec_run_keeps)
  have l: "lastMeasureTime ?s1 = lastMeasureTime s" by (simp add: elec_run_keeps r)
  have c: "particlesCrossed ?s1 = particlesCrossed s + elec_crossings_in_frame s"
    using Cons.prems(1) by (simp add: elec_run_count r)
  from Cons.prems(2) l have "\<forall>t \<in> set ts. t - lastMeasureTime ?s1 < 1000" by simp
  from Cons.IH[OF m this] l c show ?case by (simp add: elec_frames_def)
qed

text \<open>
  Claim C5.  The electric circuit counts crossings in a counter.  A frame at which at least
  one second has passed since the last bucket boundary displays the counter times 0.01
  (the charge per particle), resets the counter to 0 and starts a new bucket; a frame
  before that leaves the estimator alone, and every frame adds to the counter the crossings
  it detects.  So the \<open>N\<close> crossings of the frames of one bucket are reported as
  \<open>N * 0.01\<close> at the next boundary.  Disabling measurement sets the displayed rate to 0.
\<close>

theorem instantaneous_window_rate:
  "(measureRate e \<and> now - lastMeasureTime e \<ge> 1000 \<longrightarrow>
      displayRate (elec_report now e) = Some (of_int (particlesCrossed e) * 0.01)
      \<and> particlesCrossed (elec_report now e) = 0 \<and> lastMeasureTime (elec_report now e) = now)
   \<and> (measureRate e \<and> now - lastMeasureTime e < 1000 \<longrightarrow> elec_report now e = e)
   \<and> (measureRate e \<longrightarrow>
        particlesCrossed (elec_runSimulation now e)
          = particlesCrossed (elec_report now e) + elec_crossings_in_frame e)
   \<and> (measureRate e \<and> particlesCrossed e = 0 \<and> (\<forall>t \<in> set ts. t - lastMeasureTime e < 1000)
        \<and> now - lastMeasureTime e \<ge> 1000 \<longrightarrow>
        displayRate (elec_report now (elec_frames e ts))
          = Some (of_int (elec_crossings_over e ts) * 0.01)
        \<and> particlesCrossed (elec_report now (elec_frames e ts)) = 0)
   \<and> (measureRate e \<longrightarrow>
        displayRate (elec_setMeasureRate False now e) = Some 0
        \<and> particlesCrossed (elec_setMeasureRate False now e) = 0
        \<and> \<not> measureRate (elec_setMeasureRate False now e))"
proof -
  have d: "measureRate e \<and> particlesCrossed e = 0 \<and> (\<forall>t \<in> set ts. t - lastMeasureTime e < 1000)
        \<and> now - lastMeasureTime e \<ge> 1000 \<longrightarrow>
        displayRate (elec_report now (elec_frames e ts))
          = Some (of_int (elec_crossings_over e ts) * 0.01)
        \<and> particlesCrossed (elec_report now (elec_frames e ts)) = 0"
  proof (intro impI, elim conjE)
    assume a: "measureRate e" "particlesCrossed e = 0" "\<forall>t \<in> set ts. t - lastMeasureTime e < 1000"
      "now - lastMeasureTime e \<ge> 1000"
    note f = elec_frames_bucket[OF a(1) a(3)]
    from f a(4) have "measureRate (elec_frames e ts)"
      "now - lastMeasureTime (elec_frames e ts) \<ge> 1000" by simp_all
    from elec_report_boundary[OF this] f a(2)
    show "displayRate (elec_report now (elec_frames e ts))
          = Some (of_int (elec_crossings_over e ts) * 0.01)
        \<and> particlesCrossed (elec_report now (elec_frames e ts)) = 0"
      by (simp add: CHARGE_PER_PARTICLE_def)
  qed
  have x: "measureRate e \<longrightarrow>
        displayRate (elec_setMeasureRate False now e) = Some 0
        \<and> particlesCrossed (elec_setMeasureRate False now e) = 0
        \<and> \<not> measureRate (elec_setMeasureRate False now e)"
    by (simp add: elec_setMeasureRate_def elec_measureRate_effect_def)
  from d x show ?thesis
    using elec_report_boundary[of e now] elec_report_inside[of e now] elec_run_count[of e now]
    by (simp add: CHARGE_PER_PARTICLE_def)
qed

lemma fmod_eval: "fmod 999 1000 = 999" "fmod 1001 1000 = 1" "fmod 500 1000 = 500" "fmod 502 1000 = 502"
  by (simp_all add: fmod_def trunc_def)

theorem instantaneous_window_rate_witness:
  "displayRate (elec_report 1000 (elec_frames
      \<lparr>isPlaying = True, measureRate = True, displayRate = Some 0,
       particles = [\<lparr>ident = 0, progress = 999\<rparr>, \<lparr>ident = 1, progress = 500\<rparr>],
       voltage = 50, wireWidth = 50, particlesCrossed = 0, lastMeasureTime = 0\<rparr> [16])) = Some 0.01
   \<and> particlesCrossed (elec_runSimulation 16
      \<lparr>isPlaying = True, measureRate = True, displayRate = Some 0,
       particles = [\<lparr>ident = 0, progress = 999\<rparr>, \<lparr>ident = 1, progress = 500\<rparr>],
       voltage = 50, wireWidth = 50, particlesCrossed = 0, lastMeasureTime = 0\<rparr>) = 1
   \<and> displayRate (elec_report 1000
      \<lparr>isPlaying = True, measureRate = True, displayRate = Some 0,
       particles = [\<lparr>ident = 0, progress = 999\<rparr>, \<lparr>ident = 1, progress = 500\<rparr>],
       voltage = 50, wireWidth = 50, particlesCrossed = 3, lastMeasureTime = 0\<rparr>) = Some 0.03
   \<and> displayRate (elec_setMeasureRate False 20
      \<lparr>isPlaying = True, measureRate = True, displayRate = Some 0.03,
       particles = [\<lparr>ident = 0, progress = 999\<rparr>, \<lparr>ident = 1, progress = 500\<rparr>],
       voltage = 50, wireWidth = 50, particlesCrossed = 3, lastMeasureTime = 0\<rparr>) = Some 0"
proof -
  let ?ps = "[\<lparr>ident = 0, progress = 999\<rparr>, \<lparr>ident = 1, progress = 500\<rparr>]"
  let ?e = "\<lparr>isPlaying = True, measureRate = True, displayRate = Some 0,
       particles = ?ps, voltage = 50, wireWidth = 50, particlesCrossed = 0, lastMeasureTime = 0\<rparr>"
  let ?e3 = "\<lparr>isPlaying = True, measureRate = True, displayRate = Some 0,
       particles = ?ps, voltage = 50, wireWidth = 50, particlesCrossed = 3, lastMeasureTime = 0\<rparr>"
  let ?d = "\<lparr>isPlaying = True, measureRate = True, displayRate = Some 0.03,
       particles = ?ps, voltage = 50, wireWidth = 50, particlesCrossed = 3, lastMeasureTime = 0\<rparr>"
  have n: "elec_crossings_in_frame ?e = 1"
    by (simp add: elec_crossings_in_frame_def elec_crossed_def elec_speed_def
        TOTAL_PATH_LENGTH_def fmod_eval)
  then have n1: "elec_crossings_over ?e [16] = 1" by simp
  have r: "elec_report 16 ?e = ?e" by (simp add: elec_report_def)
  have h: "measureRate ?e \<and> particlesCrossed ?e = 0
      \<and> (\<forall>t \<in> set [16]. t - lastMeasureTime ?e < 1000) \<and> 1000 - lastMeasureTime ?e \<ge> 1000"
    by simp
  from instantaneous_window_rate[of ?e 1000 "[16]"] h n1
  have 1: "displayRate (elec_report 1000 (elec_frames ?e [16])) = Some 0.01" by simp
  from instantaneous_window_rate[of ?e 16 "[]"] n r
  have 2: "particlesCrossed (elec_runSimulation 16 ?e) = 1" by simp
  from instantaneous_window_rate[of ?e3 1000 "[]"]
  have 3: "displayRate (elec_report 1000 ?e3) = Some 0.03" by simp
  from instantaneous_window_rate[of ?d 20 "[]"]
  have 4: "displayRate (elec_setMeasureRate False 20 ?d) = Some 0" by simp
  from 1 2 3 4 show ?thesis by blast
qed

section \<open>Disabling measurement and pruning\<close>

lemma recent_bound: "\<forall>t \<in> set (recent now ts). now - 5000 \<le> t"
  by (simp add: recent_def)

text \<open>
  Claim C7.  In all three simulations, disabling measurement empties the counter or the
  log and sets the displayed rate to 0; and after every pass of the rolling-window
  estimator no timestamp of the log is older than five seconds.
\<close>

theorem measurement_off_and_pruning:
  fixes e :: elec and ws :: water and ks :: playground
  shows
  "(measureRate e \<longrightarrow>
        particlesCrossed (elec_setMeasureRate False now e) = 0
        \<and> displayRate (elec_setMeasureRate False now e) = Some 0)
   \<and> (measureRate ws \<longrightarrow>
        crossingsTimestampsRef (rolling_setMeasureRate False now ws) = []
        \<and> displayRate (rolling_setMeasureRate False now ws) = Some 0)
   \<and> (measureRate ks \<longrightarrow>
        crossingsTimestampsRef (rolling_setMeasureRate False now ks) = []
        \<and> displayRate (rolling_setMeasureRate False now ks) = Some 0)
   \<and> (measureRate ws \<and> now - lastUiUpdateTimeRef ws > 100 \<longrightarrow>
        (\<forall>t \<in> set (crossingsTimestampsRef (water_report now ws)). now - 5000 \<le> t))
   \<and> (measureRate ks \<and> now - lastUiUpdateTimeRef ks > 100 \<longrightarrow>
        (\<forall>t \<in> set (crossingsTimestampsRef (kid_report now ks)). now - 5000 \<le> t))"
  by (simp add: elec_setMeasureRate_def elec_measureRate_effect_def
      rolling_setMeasureRate_def rolling_measureRate_effect_def
      water_report_pass kid_report_pass recent_def)

theorem measurement_off_and_pruning_witness:
  "particlesCrossed (elec_setMeasureRate False 20
      ((elec_init 0)\<lparr>measureRate := True, particlesCrossed := 3, displayRate := Some 0.02\<rparr>)) = 0
   \<and> displayRate (elec_setMeasureRate False 20
      ((elec_init 0)\<lparr>measureRate := True, particlesCrossed := 3, displayRate := Some 0.02\<rparr>)) = Some 0
   \<and> crossingsTimestampsRef (rolling_setMeasureRate False 7000
      (water_init\<lparr>measureRate := True, crossingsTimestampsRef := [1000, 6000],
         displayRate := Some 1\<rparr>)) = []
   \<and> displayRate (rolling_setMeasureRate False 7000
      (kid_init\<lparr>measureRate := True, crossingsTimestampsRef := [1000, 6000],
         displayRate := Some 1\<rparr>)) = Some 0
   \<and> list_all (\<lambda>t. 7000 - 5000 \<le> t) (crossingsTimestampsRef (water_report 7000
      (water_init\<lparr>measureRate := True, crossingsTimestampsRef := [1000, 6000]\<rparr>)))
   \<and> crossingsTimestampsRef (water_report 7000
      (water_init\<lparr>measureRate := True, crossingsTimestampsRef := [1000, 6000]\<rparr>)) \<noteq> []
   \<and> list_all (\<lambda>t. 7000 - 5000 \<le> t) (crossingsTimestampsRef (kid_report 7000
      (kid_init\<lparr>measureRate := True, crossingsTimestampsRef := [1000, 6000]\<rparr>)))"
proof -
  let ?e = "(elec_init 0)\<lparr>measureRate := True, particlesCrossed := 3, displayRate := Some 0.02\<rparr>"
  let ?w = "water_init\<lparr>measureRate := True, crossingsTimestampsRef := [1000, 6000],
         displayRate := Some 1\<rparr>"
  let ?k = "kid_init\<lparr>measureRate := True, crossingsTimestampsRef := [1000, 6000],
         displayRate := Some 1\<rparr>"
  let ?w2 = "water_init\<lparr>measureRate := True, crossingsTimestampsRef := [1000, 6000]\<rparr>"
  let ?k2 = "kid_init\<lparr>measureRate := True, crossingsTimestampsRef := [1000, 6000]\<rparr>"
  have hw: "measureRate ?w2 \<and> 7000 - lastUiUpdateTimeRef ?w2 > 100"
    by (simp add: water_init_def)
  have hk: "measureRate ?k2 \<and> 7000 - lastUiUpdateTimeRef ?k2 > 100"
    by (simp add: kid_init_def)
  have ne: "crossingsTimestampsRef (water_report 7000 ?w2) \<noteq> []"
    by (simp add: water_report_def water_init_def recent_def Let_def)
  from measurement_off_and_pruning[of ?e 20 ?w ?k]
  have 1: "particlesCrossed (elec_setMeasureRate False 20 ?e) = 0"
    "displayRate (elec_setMeasureRate False 20 ?e) = Some 0" by simp_all
  from measurement_off_and_pruning[of ?e 7000 ?w ?k]
  have 2: "crossingsTimestampsRef (rolling_setMeasureRate False 7000 ?w) = []"
    "displayRate (rolling_setMeasureRate False 7000 ?k) = Some 0" by simp_all
  from measurement_off_and_pruning[of ?e 7000 ?w2 ?k2] hw hk
  have 3: "list_all (\<lambda>t. 7000 - 5000 \<le> t) (crossingsTimestampsRef (water_report 7000 ?w2))"
    "list_all (\<lambda>t. 7000 - 5000 \<le> t) (crossingsTimestampsRef (kid_report 7000 ?k2))"
    unfolding list_all_iff by blast+
  from 1 2 3 ne show ?thesis by blast
qed

section \<open>The guard of the division\<close>

lemma water_report_finite:
  "\<exists>r. displayRate s = Some r \<Longrightarrow> \<exists>r. displayRate (water_report now s) = Some r"
  using rolling_rate_finite[of "recent now (crossingsTimestampsRef s)"]
  by (auto simp: water_report_def Let_def)

lemma kid_report_finite:
  "\<exists>r. displayRate s = Some r \<Longrightarrow> \<exists>r. displayRate (kid_report now s) = Some r"
  using rolling_rate_finite[of "recent now (crossingsTimestampsRef s)"]
  by (auto simp: kid_report_def Let_def)

lemma water_handle_finite:
  "\<exists>r. displayRate s = Some r \<Longrightarrow> \<exists>r. displayRate (water_handle s e) = Some r"
  by (cases e)
     (auto simp: water_run_unfold water_report_finite water_handleReset_def
        rolling_setMeasureRate_def rolling_measureRate_effect_def)

lemma kid_handle_finite:
  "\<exists>r. displayRate s = Some r \<Longrightarrow> \<exists>r. displayRate (kid_handle s e) = Some r"
  by (cases e)
     (auto simp: kid_run_unfold kid_report_finite kid_handleReset_def
        rolling_setMeasureRate_def rolling_measureRate_effect_def)

lemma water_after_finite: "\<exists>r. displayRate (water_after evs) = Some r"
  unfolding water_after_def
  by (rule foldl_invariant[where I = "\<lambda>s. \<exists>r. displayRate s = Some r"])
     (simp_all add: water_init_def water_handle_finite)

lemma kid_after_finite: "\<exists>r. displayRate (kid_after evs) = Some r"
  unfolding kid_after_def
  by (rule foldl_invariant[where I = "\<lambda>s. \<exists>r. displayRate s = Some r"])
     (simp_all add: kid_init_def kid_handle_finite)

text \<open>
  Claim C10.  When two or more timestamps are kept and the oldest equals the newest, the
  rolling-window rate is 0.  The division is evaluated only when the time span is
  positive: the rate is always a finite number, a rate other than 0 comes with a positive
  span, and the displayed rate of the water circuit and of the playground is finite after
  every sequence of frames and user actions.
\<close>

theorem zero_span_guard:
  fixes ws :: water and ks :: playground
  shows
  "(2 \<le> length ts \<and> last ts = hd ts \<longrightarrow> rolling_rate ts = Some 0)
   \<and> (\<exists>r. rolling_rate ts = Some r)
   \<and> (rolling_rate ts \<noteq> Some 0 \<longrightarrow> (last ts - hd ts) / 1000 > 0)
   \<and> (measureRate ws \<and> now - lastUiUpdateTimeRef ws > 100
        \<and> 2 \<le> length (filter (\<lambda>t. now - 5000 \<le> t) (crossingsTimestampsRef ws))
        \<and> last (filter (\<lambda>t. now - 5000 \<le> t) (crossingsTimestampsRef ws))
            = hd (filter (\<lambda>t. now - 5000 \<le> t) (crossingsTimestampsRef ws))
        \<longrightarrow> displayRate (water_report now ws) = Some 0)
   \<and> (measureRate ks \<and> now - lastUiUpdateTimeRef ks > 100
        \<and> 2 \<le> length (filter (\<lambda>t. now - 5000 \<le> t) (crossingsTimestampsRef ks))
        \<and> last (filter (\<lambda>t. now - 5000 \<le> t) (crossingsTimestampsRef ks))
            = hd (filter (\<lambda>t. now - 5000 \<le> t) (crossingsTimestampsRef ks))
        \<longrightarrow> displayRate (kid_report now ks) = Some 0)
   \<and> (\<exists>r. displayRate (water_after wevs) = Some r)
   \<and> (\<exists>r. displayRate (kid_after kevs) = Some r)"
proof -
  have g: "rolling_rate ts \<noteq> Some 0 \<longrightarrow> (last ts - hd ts) / 1000 > 0"
    by (auto simp: rolling_rate_def Let_def split: if_splits)
  show ?thesis
    unfolding recent_filter[symmetric]
    using g rolling_rate_finite[of ts] water_after_finite[of wevs] kid_after_finite[of kevs]
    by (simp add: rolling_rate_zero_span water_report_pass kid_report_pass)
qed

theorem zero_span_guard_witness:
  "rolling_rate [5, 5] = Some 0
   \<and> rolling_rate [0, 1000, 2000] \<noteq> Some 0 \<and> ((last [0, 1000, 2000] - hd [0, 1000, 2000]) / 1000 :: real) > 0
   \<and> displayRate (water_report 7000
        (water_init\<lparr>measureRate := True, crossingsTimestampsRef := [1000, 6000, 6000],
           displayRate := Some 1\<rparr>)) = Some 0
   \<and> displayRate (kid_report 7000
        (kid_init\<lparr>measureRate := True, crossingsTimestampsRef := [1000, 6000, 6000],
           displayRate := Some 1\<rparr>)) = Some 0"
proof -
  let ?w = "water_init\<lparr>measureRate := True, crossingsTimestampsRef := [1000, 6000, 6000],
           displayRate := Some 1\<rparr>"
  let ?k = "kid_init\<lparr>measureRate := True, crossingsTimestampsRef := [1000, 6000, 6000],
           displayRate := Some 1\<rparr>"
  have hw: "measureRate ?w \<and> 7000 - lastUiUpdateTimeRef ?w > 100"
    "filter (\<lambda>t. 7000 - 5000 \<le> t) (crossingsTimestampsRef ?w) = [6000, 6000]"
    by (simp_all add: water_init_def)
  have hk: "measureRate ?k \<and> 7000 - lastUiUpdateTimeRef ?k > 100"
    "filter (\<lambda>t. 7000 - 5000 \<le> t) (crossingsTimestampsRef ?k) = [6000, 6000]"
    by (simp_all add: kid_init_def)
  have nz: "rolling_rate [0, 1000, 2000] \<noteq> Some 0"
    by (simp add: rolling_rate_def js_div_def)
  from zero_span_guard[of "[5, 5]" ?w 7000 ?k]
  have 1: "rolling_rate [5, 5] = Some 0" by simp
  from zero_span_guard[of "[0, 1000, 2000]" ?w 7000 ?k] nz
  have 2: "((last [0, 1000, 2000] - hd [0, 1000, 2000]) / 1000 :: real) > 0" by blast
  from zero_span_guard[of "[5, 5]" ?w 7000 ?k] hw hk
  have 3: "displayRate (water_report 7000 ?w) = Some 0" "displayRate (kid_report 7000 ?k) = Some 0"
    by simp_all
  from 1 2 3 nz show ?thesis by blast
qed

section \<open>Lane offset\<close>

lemma irem_nonneg: "0 \<le> a \<Longrightarrow> 0 < b \<Longrightarrow> irem a b = a mod b"
  by (cases "a = 0") (simp_all add: irem_def)

lemma elec_offset_formula:
  "0 \<le> i \<Longrightarrow> 1 < n \<Longrightarrow>
   elec_offset i n w sw =
     (of_int (i mod max 1 \<lfloor>w / 20\<rfloor>) - (of_int (max 1 \<lfloor>w / 20\<rfloor>) - 1) / 2)
       * (sw * 0.7 / of_int (max 1 \<lfloor>w / 20\<rfloor>))"
  by (simp add: elec_offset_def Let_def irem_nonneg)

lemma water_offset_formula:
  "0 \<le> i \<Longrightarrow> 1 < n \<Longrightarrow>
   water_offset i n w sw =
     (of_int (i mod max 1 \<lfloor>w / 25\<rfloor>) - (of_int (max 1 \<lfloor>w / 25\<rfloor>) - 1) / 2)
       * (sw * 0.8 / of_int (max 1 \<lfloor>w / 25\<rfloor>))"
  by (simp add: water_offset_def Let_def irem_nonneg)

lemma kid_offset_formula:
  "0 \<le> i \<Longrightarrow> 1 < n \<Longrightarrow>
   kid_offset i n w =
     (of_int (i mod max 1 \<lfloor>w / 25\<rfloor>) - (of_int (max 1 \<lfloor>w / 25\<rfloor>) - 1) / 2) * 12"
  by (simp add: kid_offset_def Let_def irem_nonneg)

lemma offsets_single: "elec_offset i 1 w sw = 0" "water_offset i 1 w sw = 0" "kid_offset i 1 w = 0"
  by (simp_all add: elec_offset_def water_offset_def kid_offset_def)

lemma elec_displacements:
  "displacement (elec_seg1 off p) (elec_seg1 0 p) = (0, off)"
  "displacement (elec_seg2 off p) (elec_seg2 0 p) = (off, 0)"
  "displacement (elec_seg3 off p) (elec_seg3 0 p) = (0, off)"
  "displacement (elec_seg4 off p) (elec_seg4 0 p) = (off, 0)"
  "displacement (elec_seg5 off p) (elec_seg5 0 p) = (0, off)"
  "displacement (elec_seg6 off p) (elec_seg6 0 p) = (off, 0)"
  "displacement (elec_seg7 off p) (elec_seg7 0 p) = (0, off)"
  by (simp_all add: displacement_def elec_seg1_def elec_seg2_def elec_seg3_def elec_seg4_def
      elec_seg5_def elec_seg6_def elec_seg7_def)

lemma normal_facts:
  fixes m a b off :: real
  assumes "m \<noteq> 0" "m * m = a * a + b * b"
  shows "off * (b / m) * a + off * (- a / m) * b = 0"
    and "off * (b / m) * (off * (b / m)) + off * (- a / m) * (off * (- a / m)) = off * off"
proof -
  show "off * (b / m) * a + off * (- a / m) * b = 0"
    using assms(1) by (simp add: field_simps)
  have "off * (b / m) * (off * (b / m)) + off * (- a / m) * (off * (- a / m))
          = off * off * (a * a + b * b) / (m * m)"
    using assms(1) by (simp add: field_simps)
  also have "\<dots> = off * off * (m * m) / (m * m)" by (simp only: assms(2))
  also have "\<dots> = off * off" using assms(1) by simp
  finally show "off * (b / m) * (off * (b / m)) + off * (- a / m) * (off * (- a / m)) = off * off" .
qed

lemma calculatePosition_perp:
  "(case displacement (calculatePosition off s e t) (calculatePosition 0 s e t) of
      (dx, dy) \<Rightarrow> dx * (px e - px s) + dy * (py e - py s) = 0
                  \<and> ((px e - px s) * (px e - px s) + (py e - py s) * (py e - py s) > 0
                        \<longrightarrow> dx * dx + dy * dy = off * off))"
proof -
  define vx vy where "vx = px e - px s" and "vy = py e - py s"
  define m where "m = sqrt (vx * vx + vy * vy)"
  have nn: "0 \<le> vx * vx + vy * vy" by simp
  have d: "displacement (calculatePosition off s e t) (calculatePosition 0 s e t)
             = (off * (vy / (if m = 0 then 1 else m)), off * (- vx / (if m = 0 then 1 else m)))"
    unfolding displacement_def calculatePosition_def Let_def m_def vx_def vy_def by simp
  show ?thesis
  proof (cases "m = 0")
    case True
    then have "vx * vx + vy * vy = 0" using nn by (simp add: m_def)
    then have z: "vx = 0" "vy = 0"
      using sum_squares_eq_zero_iff[of vx vy] by simp_all
    show ?thesis unfolding d vx_def[symmetric] vy_def[symmetric] by (simp add: z)
  next
    case False
    have mm: "m * m = vx * vx + vy * vy" using nn by (simp add: m_def)
    note n = normal_facts[OF False mm, of off]
    show ?thesis unfolding d vx_def[symmetric] vy_def[symmetric] using False n by simp
  qed
qed

lemma kid_straight_displacements:
  "displacement (kid_seg2 off h p) (kid_seg2 0 h p) = (0, off)"
  "displacement (kid_seg3 off h p) (kid_seg3 0 h p) = (off, 0)"
  by (simp_all add: displacement_def kid_seg2_def kid_seg3_def Let_def)

lemma kid_slide_perp:
  "(let t = p / 300; tInv = 1 - t; topY = kid_topY h;
        dx = 3 * tInv ^ 2 * (150 - 50) + 6 * tInv * t * (150 - 150) + 3 * t ^ 2 * (250 - 150);
        dy = 3 * tInv ^ 2 * (topY - topY) + 6 * tInv * t * (200 - topY) + 3 * t ^ 2 * (200 - 200)
    in case displacement (kid_seg1 off h p) (kid_seg1 0 h p) of
         (ex, ey) \<Rightarrow> ex * dx + ey * dy = 0 \<and> (dx * dx + dy * dy > 0 \<longrightarrow> ex * ex + ey * ey = off * off))"
proof -
  define t where "t = p / 300"
  define dx where "dx = 3 * (1 - t) ^ 2 * (150 - 50) + 6 * (1 - t) * t * (150 - 150) + 3 * t ^ 2 * (250 - 150)"
  define dy where "dy = 3 * (1 - t) ^ 2 * (kid_topY h - kid_topY h) + 6 * (1 - t) * t * (200 - kid_topY h) + 3 * t ^ 2 * (200 - 200)"
  define m where "m = sqrt (dx * dx + dy * dy)"
  have nn: "0 \<le> dx * dx + dy * dy" by simp
  have d: "displacement (kid_seg1 off h p) (kid_seg1 0 h p)
             = (if m = 0 then (0, 0) else (off * (dy' / m), off * (- dx' / m)))"
    if "dy' = - dy" "dx' = - dx" for dx' dy'
    unfolding displacement_def kid_seg1_def Let_def m_def dx_def dy_def t_def that by simp
  have goal: "(case displacement (kid_seg1 off h p) (kid_seg1 0 h p) of
         (ex, ey) \<Rightarrow> ex * dx + ey * dy = 0 \<and> (dx * dx + dy * dy > 0 \<longrightarrow> ex * ex + ey * ey = off * off))"
  proof (cases "m = 0")
    case True
    then have "dx * dx + dy * dy = 0" using nn by (simp add: m_def)
    then show ?thesis unfolding d[OF refl refl] using True by simp
  next
    case False
    have mm: "m * m = (- dx) * (- dx) + (- dy) * (- dy)" using nn by (simp add: m_def)
    note n = normal_facts[OF False mm, of off]
    show ?thesis unfolding d[OF refl refl] using False n by simp
  qed
  then show ?thesis unfolding Let_def dx_def dy_def t_def .
qed


text \<open>
  Claim C9, as amended.  With \<open>numLanes = max(1, floor(width / c))\<close> (\<open>c = 20\<close> in the
  electric circuit, 25 in the water circuit and on the playground) and
  \<open>lane = entityId mod numLanes\<close>, the lane offset of an entity among more than one is
  \<open>(lane - (numLanes - 1) / 2)\<close> times \<open>strokeWidth * 0.7 / numLanes\<close> in the electric
  circuit, times \<open>strokeWidth * 0.8 / numLanes\<close> in the water circuit, and times the
  constant 12 on the playground, whose position function takes no stroke width.  For an
  entity count of 1 the offset is 0.  The offset moves the position away from the centre
  line (the position at offset 0) at a right angle to the path: along \<open>y\<close> on the
  horizontal and along \<open>x\<close> on the vertical segments of the electric circuit and of the
  playground, at a right angle to the segment in \<^verbatim>\<open>calculatePosition\<close>, and at a right
  angle to the derivative of the curve on the slide; by the distance \<open>|offset|\<close>.
\<close>

theorem lane_offset:
  "(0 \<le> i \<and> 1 < n \<longrightarrow>
      (let numLanes = max 1 \<lfloor>w / 20\<rfloor>; lane = i mod numLanes
       in elec_offset i n w sw
            = (of_int lane - (of_int numLanes - 1) / 2) * (sw * 0.7 / of_int numLanes))
      \<and> (let numLanes = max 1 \<lfloor>w / 25\<rfloor>; lane = i mod numLanes
         in water_offset i n w sw
              = (of_int lane - (of_int numLanes - 1) / 2) * (sw * 0.8 / of_int numLanes)
            \<and> kid_offset i n w = (of_int lane - (of_int numLanes - 1) / 2) * 12))
   \<and> elec_offset i 1 w sw = 0 \<and> water_offset i 1 w sw = 0 \<and> kid_offset i 1 w = 0
   \<and> displacement (elec_seg1 off p) (elec_seg1 0 p) = (0, off)
   \<and> displacement (elec_seg2 off p) (elec_seg2 0 p) = (off, 0)
   \<and> displacement (elec_seg3 off p) (elec_seg3 0 p) = (0, off)
   \<and> displacement (elec_seg4 off p) (elec_seg4 0 p) = (off, 0)
   \<and> displacement (elec_seg5 off p) (elec_seg5 0 p) = (0, off)
   \<and> displacement (elec_seg6 off p) (elec_seg6 0 p) = (off, 0)
   \<and> displacement (elec_seg7 off p) (elec_seg7 0 p) = (0, off)
   \<and> (case displacement (calculatePosition off s e t) (calculatePosition 0 s e t) of
        (dx, dy) \<Rightarrow> dx * (px e - px s) + dy * (py e - py s) = 0
                  \<and> ((px e - px s) * (px e - px s) + (py e - py s) * (py e - py s) > 0
                        \<longrightarrow> dx * dx + dy * dy = off * off))
   \<and> (let t = p / 300; tInv = 1 - t; topY = kid_topY h;
          dx = 3 * tInv ^ 2 * (150 - 50) + 6 * tInv * t * (150 - 150) + 3 * t ^ 2 * (250 - 150);
          dy = 3 * tInv ^ 2 * (topY - topY) + 6 * tInv * t * (200 - topY) + 3 * t ^ 2 * (200 - 200)
       in case displacement (kid_seg1 off h p) (kid_seg1 0 h p) of
           (ex, ey) \<Rightarrow> ex * dx + ey * dy = 0
                       \<and> (dx * dx + dy * dy > 0 \<longrightarrow> ex * ex + ey * ey = off * off))
   \<and> displacement (kid_seg2 off h p) (kid_seg2 0 h p) = (0, off)
   \<and> displacement (kid_seg3 off h p) (kid_seg3 0 h p) = (off, 0)"
proof -
  have a: "0 \<le> i \<and> 1 < n \<longrightarrow>
      (let numLanes = max 1 \<lfloor>w / 20\<rfloor>; lane = i mod numLanes
       in elec_offset i n w sw
            = (of_int lane - (of_int numLanes - 1) / 2) * (sw * 0.7 / of_int numLanes))
      \<and> (let numLanes = max 1 \<lfloor>w / 25\<rfloor>; lane = i mod numLanes
         in water_offset i n w sw
              = (of_int lane - (of_int numLanes - 1) / 2) * (sw * 0.8 / of_int numLanes)
            \<and> kid_offset i n w = (of_int lane - (of_int numLanes - 1) / 2) * 12)"
    unfolding Let_def
    using elec_offset_formula[of i n w sw] water_offset_formula[of i n w sw]
      kid_offset_formula[of i n w]
    by blast
  show ?thesis
    by (intro conjI a offsets_single elec_displacements calculatePosition_perp kid_slide_perp
        kid_straight_displacements)
qed

theorem lane_offset_witness:
  "elec_offset 3 30 50 (wireStrokeWidth 50) = 7 / 5
   \<and> water_offset 3 40 50 (pipeStrokeWidth 50) = 14 / 5
   \<and> kid_offset 3 15 50 = 6
   \<and> (case displacement (calculatePosition 5 \<lparr>px = 0, py = 0\<rparr> \<lparr>px = 3, py = 4\<rparr> (1 / 2))
                          (calculatePosition 0 \<lparr>px = 0, py = 0\<rparr> \<lparr>px = 3, py = 4\<rparr> (1 / 2)) of
        (dx, dy) \<Rightarrow> dx * dx + dy * dy = 25)
   \<and> (case displacement (kid_seg1 6 50 300) (kid_seg1 0 50 300) of
        (ex, ey) \<Rightarrow> ex * ex + ey * ey = 36)"
proof -
  note t = lane_offset[where i = 3 and n = 30 and w = 50 and sw = "wireStrokeWidth 50"
      and off = 5 and p = 300 and s = "\<lparr>px = 0, py = 0\<rparr>" and e = "\<lparr>px = 3, py = 4\<rparr>"
      and t = "1 / 2" and h = 50]
  note u = lane_offset[where i = 3 and n = 40 and w = 50 and sw = "pipeStrokeWidth 50"
      and off = 6 and p = 300 and s = "\<lparr>px = 0, py = 0\<rparr>" and e = "\<lparr>px = 3, py = 4\<rparr>"
      and t = "1 / 2" and h = 50]
  note v = lane_offset[where i = 3 and n = 15 and w = 50 and sw = "pipeStrokeWidth 50"
      and off = 6 and p = 300 and s = "\<lparr>px = 0, py = 0\<rparr>" and e = "\<lparr>px = 3, py = 4\<rparr>"
      and t = "1 / 2" and h = 50]
  from t have 1: "elec_offset 3 30 50 (wireStrokeWidth 50) = 7 / 5"
    by (simp add: Let_def wireStrokeWidth_def)
  from u have 2: "water_offset 3 40 50 (pipeStrokeWidth 50) = 14 / 5"
    by (simp add: Let_def pipeStrokeWidth_def)
  from v have 3: "kid_offset 3 15 50 = 6"
    by (simp add: Let_def)
  from t have 4: "(case displacement (calculatePosition 5 \<lparr>px = 0, py = 0\<rparr> \<lparr>px = 3, py = 4\<rparr> (1 / 2))
                          (calculatePosition 0 \<lparr>px = 0, py = 0\<rparr> \<lparr>px = 3, py = 4\<rparr> (1 / 2)) of
        (dx, dy) \<Rightarrow> dx * dx + dy * dy = 25)"
    by (auto simp: case_prod_beta)
  from u have 5: "(case displacement (kid_seg1 6 50 300) (kid_seg1 0 50 300) of
        (ex, ey) \<Rightarrow> ex * ex + ey * ey = 36)"
    by (auto simp: case_prod_beta Let_def)
  from 1 2 3 4 5 show ?thesis by blast
qed

theorem lane_offset_counterexample:
  "kid_offset 0 15 50 = - 6 \<and> kid_offset 0 15 60 = - 6
   \<and> max 1 \<lfloor>(50::real) / 25\<rfloor> = max 1 \<lfloor>(60::real) / 25\<rfloor>
   \<and> slideStrokeWidth 50 = 16 \<and> slideStrokeWidth 60 = 88 / 5"
  by (simp add: kid_offset_def irem_def slideStrokeWidth_def)

section \<open>Segment boundaries\<close>

lemma calculatePosition_centre:
  "calculatePosition 0 s e t
     = \<lparr>px = px s + (px e - px s) * t, py = py s + (py e - py s) * t\<rparr>"
  by (simp add: calculatePosition_def Let_def)

lemma elec_boundaries_centre:
  "within_tolerance (elec_seg1 0 250) (elec_seg2 0 250)"
  "within_tolerance (elec_seg2 0 325) (elec_seg3 0 325)"
  "within_tolerance (elec_seg3 0 425) (elec_seg4 0 425)"
  "within_tolerance (elec_seg4 0 500) (elec_seg5 0 500)"
  "within_tolerance (elec_seg5 0 750) (elec_seg6 0 750)"
  "within_tolerance (elec_seg6 0 900) (elec_seg7 0 900)"
  by (simp_all add: within_tolerance_def elec_seg1_def elec_seg2_def elec_seg3_def elec_seg4_def
      elec_seg5_def elec_seg6_def elec_seg7_def)

lemma elec_wrap: "within_tolerance (elec_seg7 off 1000) (elec_seg1 off 0)"
  by (simp add: within_tolerance_def elec_seg1_def elec_seg7_def)

lemma water_boundaries_centre:
  "within_tolerance (water_seg1 0 h 200) (water_seg2 0 h 200)"
  "within_tolerance (water_seg2 0 h 350) (water_seg3 0 h 350)"
  "within_tolerance (water_seg5 0 h 750) (water_seg6 0 h 750)"
  "within_tolerance (water_seg6 0 h 950) (water_seg7 0 h 950)"
  by (simp_all add: within_tolerance_def water_seg1_def water_seg2_def water_seg3_def
      water_seg5_def water_seg6_def water_seg7_def calculatePosition_centre
      P_TOP_OUTLET_def P_TURBINE_def P_BOTTOM_INLET_def P_PUMP_INLET_def P_TOP_INLET_def)

lemma sqrt_6400: "sqrt 6400 = 80"
  by (rule real_sqrt_unique) simp_all

lemma water_pump_inlet:
  assumes "10 \<le> h" "h \<le> 100"
  shows "within_tolerance (water_seg4 off h 500) (water_seg5 off h 500)"
proof -
  have t: "water_topY h - 220 < 0" using assms by (simp add: water_topY_def)
  then have m: "sqrt ((water_topY h - 220) * (water_topY h - 220)) = 220 - water_topY h"
    by simp
  have 4: "water_seg4 off h 500 = \<lparr>px = 20 - off, py = 220\<rparr>"
    by (simp add: water_seg4_def calculatePosition_def Let_def P_BOTTOM_OUTLET_def
        P_PUMP_INLET_def sqrt_6400)
  have "off * (water_topY h - 220) / (220 - water_topY h) = - off"
    using t by (simp add: field_simps)
  then have 5: "water_seg5 off h 500 = \<lparr>px = 20 - off, py = 220\<rparr>"
    using t by (simp add: water_seg5_def calculatePosition_def Let_def P_PUMP_INLET_def m)
  show ?thesis unfolding 4 5 by (simp add: within_tolerance_def)
qed

lemma sqrt_90000: "sqrt 90000 = 300"
  by (rule real_sqrt_unique) simp_all

lemma kid_slide_ends:
  "kid_seg1 off h 300 = \<lparr>px = 250, py = 200 + off\<rparr>"
  "kid_seg1 off h 0 = \<lparr>px = 50, py = kid_topY h + off\<rparr>"
  by (simp_all add: kid_seg1_def Let_def sqrt_90000)

lemma kid_slide_foot: "within_tolerance (kid_seg1 off h 300) (kid_seg2 off h 300)"
  by (simp add: kid_slide_ends within_tolerance_def kid_seg2_def)

lemma kid_boundaries_centre:
  "within_tolerance (kid_seg2 0 h 600) (kid_seg3 0 h 600)"
  "within_tolerance (kid_seg3 0 h 1000) (kid_seg1 0 h 0)"
  by (simp_all add: kid_slide_ends within_tolerance_def kid_seg2_def kid_seg3_def Let_def)

text \<open>
  Claim C1, as amended.  When the lane offset of the entity is 0 (one entity, one lane, or
  the middle lane of an odd number), the segment formula that ends at a boundary and the
  one that starts there give the same position, within \<open>1e-6\<close>, at the boundaries 250,
  325, 425, 500, 750, 900 of the electric circuit, at 200, 350, 750, 950 of the water
  circuit, and at 600 and the wrap of the playground.  Whatever the lane offset, they agree
  at the wrap of the electric circuit, at 500 in the water circuit (for a height
  difference in its range 10..100) and at 300 on the playground.
\<close>

theorem boundary_continuity:
  "(elec_offset i n w sw = 0 \<longrightarrow>
      (let off = elec_offset i n w sw
       in within_tolerance (elec_seg1 off 250) (elec_seg2 off 250)
          \<and> within_tolerance (elec_seg2 off 325) (elec_seg3 off 325)
          \<and> within_tolerance (elec_seg3 off 425) (elec_seg4 off 425)
          \<and> within_tolerance (elec_seg4 off 500) (elec_seg5 off 500)
          \<and> within_tolerance (elec_seg5 off 750) (elec_seg6 off 750)
          \<and> within_tolerance (elec_seg6 off 900) (elec_seg7 off 900)))
   \<and> within_tolerance (elec_seg7 (elec_offset i n w sw) 1000) (elec_seg1 (elec_offset i n w sw) 0)
   \<and> (water_offset i n w sw = 0 \<longrightarrow>
      (let off = water_offset i n w sw
       in within_tolerance (water_seg1 off h 200) (water_seg2 off h 200)
          \<and> within_tolerance (water_seg2 off h 350) (water_seg3 off h 350)
          \<and> within_tolerance (water_seg5 off h 750) (water_seg6 off h 750)
          \<and> within_tolerance (water_seg6 off h 950) (water_seg7 off h 950)))
   \<and> (10 \<le> h \<and> h \<le> 100 \<longrightarrow>
        within_tolerance (water_seg4 (water_offset i n w sw) h 500)
                         (water_seg5 (water_offset i n w sw) h 500))
   \<and> within_tolerance (kid_seg1 (kid_offset i n w) h 300) (kid_seg2 (kid_offset i n w) h 300)
   \<and> (kid_offset i n w = 0 \<longrightarrow>
      (let off = kid_offset i n w
       in within_tolerance (kid_seg2 off h 600) (kid_seg3 off h 600)
          \<and> within_tolerance (kid_seg3 off h 1000) (kid_seg1 off h 0)))"
  unfolding Let_def
  using elec_boundaries_centre elec_wrap[of "elec_offset i n w sw"] water_boundaries_centre[of h]
    water_pump_inlet[of h "water_offset i n w sw"] kid_slide_foot[of "kid_offset i n w" h]
    kid_boundaries_centre[of h]
  by simp

theorem boundary_continuity_witness:
  "elec_offset 7 30 30 (wireStrokeWidth 30) = 0
   \<and> within_tolerance (elec_seg1 (elec_offset 7 30 30 (wireStrokeWidth 30)) 250)
                      (elec_seg2 (elec_offset 7 30 30 (wireStrokeWidth 30)) 250)
   \<and> within_tolerance (elec_seg6 (elec_offset 7 30 30 (wireStrokeWidth 30)) 900)
                      (elec_seg7 (elec_offset 7 30 30 (wireStrokeWidth 30)) 900)
   \<and> water_offset 7 40 30 (pipeStrokeWidth 30) = 0
   \<and> within_tolerance (water_seg1 (water_offset 7 40 30 (pipeStrokeWidth 30)) 50 200)
                      (water_seg2 (water_offset 7 40 30 (pipeStrokeWidth 30)) 50 200)
   \<and> within_tolerance (water_seg4 (water_offset 3 40 50 (pipeStrokeWidth 50)) 50 500)
                      (water_seg5 (water_offset 3 40 50 (pipeStrokeWidth 50)) 50 500)
   \<and> kid_offset 7 15 30 = 0
   \<and> within_tolerance (kid_seg3 (kid_offset 7 15 30) 50 1000) (kid_seg1 (kid_offset 7 15 30) 50 0)"
proof -
  have e: "elec_offset 7 30 30 (wireStrokeWidth 30) = 0"
    by (simp add: elec_offset_def irem_def)
  have w: "water_offset 7 40 30 (pipeStrokeWidth 30) = 0"
    by (simp add: water_offset_def irem_def)
  have k: "kid_offset 7 15 30 = 0"
    by (simp add: kid_offset_def irem_def)
  have h: "(10::real) \<le> 50 \<and> (50::real) \<le> 100" by simp
  note a = boundary_continuity[where i = 7 and n = 30 and w = 30 and sw = "wireStrokeWidth 30"
      and h = 50]
  note b = boundary_continuity[where i = 7 and n = 40 and w = 30 and sw = "pipeStrokeWidth 30"
      and h = 50]
  note c = boundary_continuity[where i = 3 and n = 40 and w = 50 and sw = "pipeStrokeWidth 50"
      and h = 50]
  note d = boundary_continuity[where i = 7 and n = 15 and w = 30 and sw = "pipeStrokeWidth 30"
      and h = 50]
  from a e have 1: "within_tolerance (elec_seg1 (elec_offset 7 30 30 (wireStrokeWidth 30)) 250)
                      (elec_seg2 (elec_offset 7 30 30 (wireStrokeWidth 30)) 250)"
    "within_tolerance (elec_seg6 (elec_offset 7 30 30 (wireStrokeWidth 30)) 900)
                      (elec_seg7 (elec_offset 7 30 30 (wireStrokeWidth 30)) 900)"
    unfolding Let_def by blast+
  from b w have 2: "within_tolerance (water_seg1 (water_offset 7 40 30 (pipeStrokeWidth 30)) 50 200)
                      (water_seg2 (water_offset 7 40 30 (pipeStrokeWidth 30)) 50 200)"
    unfolding Let_def by blast
  from c h have 3: "within_tolerance (water_seg4 (water_offset 3 40 50 (pipeStrokeWidth 50)) 50 500)
                      (water_seg5 (water_offset 3 40 50 (pipeStrokeWidth 50)) 50 500)"
    by blast
  from d k have 4: "within_tolerance (kid_seg3 (kid_offset 7 15 30) 50 1000)
      (kid_seg1 (kid_offset 7 15 30) 50 0)"
    unfolding Let_def by blast
  from e w k 1 2 3 4 show ?thesis by blast
qed

theorem boundary_continuity_counterexample:
  "px (elec_seg1 (elec_offset 0 30 50 (wireStrokeWidth 50)) 250) = 300
   \<and> py (elec_seg1 (elec_offset 0 30 50 (wireStrokeWidth 50)) 250) = 243 / 5
   \<and> px (elec_seg2 (elec_offset 0 30 50 (wireStrokeWidth 50)) 250) = 1493 / 5
   \<and> py (elec_seg2 (elec_offset 0 30 50 (wireStrokeWidth 50)) 250) = 50
   \<and> \<not> within_tolerance (elec_seg1 (elec_offset 0 30 50 (wireStrokeWidth 50)) 250)
                        (elec_seg2 (elec_offset 0 30 50 (wireStrokeWidth 50)) 250)
   \<and> \<not> within_tolerance (water_seg3 (water_offset 0 1 50 (pipeStrokeWidth 50)) 50 400)
                        (water_seg4 (water_offset 0 1 50 (pipeStrokeWidth 50)) 50 400)
   \<and> \<not> within_tolerance (water_seg7 (water_offset 0 1 50 (pipeStrokeWidth 50)) 50 1000)
                        (water_seg1 (water_offset 0 1 50 (pipeStrokeWidth 50)) 50 0)"
proof -
  have o: "elec_offset 0 30 50 (wireStrokeWidth 50) = - 7 / 5"
    by (simp add: elec_offset_def irem_def wireStrokeWidth_def)
  have w: "water_offset 0 1 50 (pipeStrokeWidth 50) = 0"
    by (simp add: water_offset_def)
  show ?thesis
    unfolding o w
    by (simp add: within_tolerance_def elec_seg1_def elec_seg2_def water_seg3_def water_seg4_def
        water_seg7_def water_seg1_def calculatePosition_centre P_BOTTOM_INLET_def
        P_BOTTOM_OUTLET_def P_PUMP_INLET_def P_TOP_INLET_def P_TOP_OUTLET_def P_TURBINE_def
        water_topY_def)
qed

section \<open>Checkpoint crossings\<close>

lemma floor_div_1000:
  "of_int z * 1000 \<le> x \<Longrightarrow> x < of_int z * 1000 + 1000 \<Longrightarrow> \<lfloor>x / 1000\<rfloor> = z"
  by (rule floor_unique) (simp_all add: field_simps)

text \<open>A nonnegative progress splits into whole laps and the remainder.\<close>

lemma progress_split:
  assumes "0 \<le> P"
  obtains q :: int and r :: real
  where "P = of_int q * 1000 + r" "0 \<le> r" "r < 1000" "fmod P 1000 = r" "\<lfloor>P / 1000\<rfloor> = q"
proof -
  let ?q = "\<lfloor>P / 1000\<rfloor>"
  let ?r = "fmod P 1000"
  have "P = of_int ?q * 1000 + ?r" using assms by (simp add: fmod_nonneg_floor)
  moreover have "0 \<le> ?r" "?r < 1000" using fmod_range[OF assms] by simp_all
  ultimately show ?thesis using that[of ?q ?r] by simp
qed

lemma fmod_of_split:
  assumes "0 \<le> r" "r < 1000" "0 \<le> of_int q * 1000 + r"
  shows "fmod (of_int q * 1000 + r) 1000 = r"
proof -
  have "\<lfloor>(of_int q * 1000 + r) / 1000\<rfloor> = q"
    using assms by (intro floor_div_1000) simp_all
  then show ?thesis using assms(3) by (simp add: fmod_nonneg_floor)
qed

lemma floor_step_450:
  assumes "0 \<le> P" "0 \<le> s" "s \<le> 450"
  shows "\<lfloor>(P + s - 450) / 1000\<rfloor>
           = \<lfloor>(P - 450) / 1000\<rfloor>
             + (if crossed_point (fmod P 1000) (fmod (P + s) 1000) then 1 else 0)"
    and "crossed_point (fmod P 1000) (fmod (P + s) 1000)
           \<longleftrightarrow> spec_crossing 450 (fmod P 1000) (fmod (P + s) 1000)"
proof -
  from assms(1) obtain q :: int and r :: real
    where P: "P = of_int q * 1000 + r" and r: "0 \<le> r" "r < 1000" and m: "fmod P 1000 = r"
    by (rule progress_split)
  have q0: "0 \<le> q"
  proof (rule ccontr)
    assume "\<not> 0 \<le> q"
    then have "q \<le> - 1" by simp
    then have "(of_int q :: real) \<le> - 1" by (metis of_int_le_iff of_int_minus of_int_1)
    with r P assms(1) show False by simp
  qed
  then have q0r: "0 \<le> (of_int q :: real)" by simp
  have A: "\<lfloor>(P - 450) / 1000\<rfloor> = (if r < 450 then q - 1 else q)"
    using r by (auto intro!: floor_div_1000 simp: P)
  have B: "\<lfloor>(P + s - 450) / 1000\<rfloor> = (if r + s < 450 then q - 1 else q)"
    using r assms by (auto intro!: floor_div_1000 simp: P)
  have N: "fmod (P + s) 1000 = (if r + s < 1000 then r + s else r + s - 1000)"
  proof (cases "r + s < 1000")
    case True
    have "fmod (of_int q * 1000 + (r + s)) 1000 = r + s"
      using True r assms q0r by (intro fmod_of_split) simp_all
    then show ?thesis using True by (simp add: P add.assoc)
  next
    case False
    have "fmod (of_int (q + 1) * 1000 + (r + s - 1000)) 1000 = r + s - 1000"
      using False r assms q0r by (intro fmod_of_split) simp_all
    then show ?thesis using False by (simp add: P algebra_simps)
  qed
  show "\<lfloor>(P + s - 450) / 1000\<rfloor>
           = \<lfloor>(P - 450) / 1000\<rfloor>
             + (if crossed_point (fmod P 1000) (fmod (P + s) 1000) then 1 else 0)"
    unfolding A B m N crossed_point_def CROSSING_POINT_def using r assms by auto
  show "crossed_point (fmod P 1000) (fmod (P + s) 1000)
           \<longleftrightarrow> spec_crossing 450 (fmod P 1000) (fmod (P + s) 1000)"
    unfolding m N crossed_point_def CROSSING_POINT_def spec_crossing_def using r assms by auto
qed

lemma floor_step_0:
  assumes "0 \<le> P" "0 \<le> s" "s < 100"
  shows "\<lfloor>(P + s) / 1000\<rfloor>
           = \<lfloor>P / 1000\<rfloor> + (if elec_crossed P (P + s) then 1 else 0)"
    and "elec_crossed P (P + s) \<longleftrightarrow> spec_crossing 0 (fmod P 1000) (fmod (P + s) 1000)"
proof -
  from assms(1) obtain q :: int and r :: real
    where P: "P = of_int q * 1000 + r" and r: "0 \<le> r" "r < 1000" and m: "fmod P 1000 = r"
      and A: "\<lfloor>P / 1000\<rfloor> = q"
    by (rule progress_split)
  have q0: "0 \<le> q"
  proof (rule ccontr)
    assume "\<not> 0 \<le> q"
    then have "q \<le> - 1" by simp
    then have "(of_int q :: real) \<le> - 1" by (metis of_int_le_iff of_int_minus of_int_1)
    with r P assms(1) show False by simp
  qed
  then have q0r: "0 \<le> (of_int q :: real)" by simp
  have B: "\<lfloor>(P + s) / 1000\<rfloor> = (if r + s < 1000 then q else q + 1)"
    using r assms by (auto intro!: floor_div_1000 simp: P)
  have N: "fmod (P + s) 1000 = (if r + s < 1000 then r + s else r + s - 1000)"
  proof (cases "r + s < 1000")
    case True
    have "fmod (of_int q * 1000 + (r + s)) 1000 = r + s"
      using True r assms q0r by (intro fmod_of_split) simp_all
    then show ?thesis using True by (simp add: P add.assoc)
  next
    case False
    have "fmod (of_int (q + 1) * 1000 + (r + s - 1000)) 1000 = r + s - 1000"
      using False r assms q0r by (intro fmod_of_split) simp_all
    then show ?thesis using False by (simp add: P algebra_simps)
  qed
  show "\<lfloor>(P + s) / 1000\<rfloor>
           = \<lfloor>P / 1000\<rfloor> + (if elec_crossed P (P + s) then 1 else 0)"
    unfolding A B elec_crossed_def TOTAL_PATH_LENGTH_def m N using r assms by auto
  show "elec_crossed P (P + s) \<longleftrightarrow> spec_crossing 0 (fmod P 1000) (fmod (P + s) 1000)"
    unfolding elec_crossed_def TOTAL_PATH_LENGTH_def m N spec_crossing_def using r assms by auto
qed


lemma widthFactor_range:
  assumes "10 \<le> w" "w \<le> 100"
  shows "0 \<le> widthFactor w" "widthFactor w \<le> 1"
proof -
  have a: "0 \<le> (w - 10) / 90" "(w - 10) / 90 \<le> 1" using assms by simp_all
  show "0 \<le> widthFactor w" "widthFactor w \<le> 1"
    unfolding widthFactor_def using a by linarith+
qed

lemma scaled_speed_range:
  fixes a f :: real
  assumes "0 \<le> a" "a \<le> 450" "0 \<le> f" "f \<le> 1"
  shows "0 \<le> a * f" "a * f \<le> 450"
proof -
  show "0 \<le> a * f" using assms by simp
  have "a * f \<le> 450 * 1" using assms by (intro mult_mono) simp_all
  then show "a * f \<le> 450" by simp
qed

lemma water_speed_range:
  assumes "10 \<le> h" "h \<le> 100" "10 \<le> w" "w \<le> 100"
  shows "0 \<le> water_speed h w P" "water_speed h w P \<le> 450"
proof -
  note f = widthFactor_range[OF assms(3,4)]
  have g: "0 \<le> 0.5 + (h / 100) * 4" "0.5 + (h / 100) * 4 \<le> 450" using assms by simp_all
  have p: "(0::real) \<le> 3" "(3::real) \<le> 450" by simp_all
  show "0 \<le> water_speed h w P" "water_speed h w P \<le> 450"
    using scaled_speed_range[OF g f] scaled_speed_range[OF p f]
    by (simp_all add: water_speed_def Let_def)
qed

lemma kid_speed_range:
  assumes "10 \<le> h" "h \<le> 100" "10 \<le> w" "w \<le> 100"
  shows "0 \<le> kid_speed h w P" "kid_speed h w P \<le> 450"
proof -
  note f = widthFactor_range[OF assms(3,4)]
  have g: "0 \<le> 1.5 + (h / 100) * 4" "1.5 + (h / 100) * 4 \<le> 450" using assms by simp_all
  have p: "(0::real) \<le> 3" "(3::real) \<le> 450" by simp_all
  have r: "(0::real) \<le> 2" "(2::real) \<le> 450" by simp_all
  show "0 \<le> kid_speed h w P" "kid_speed h w P \<le> 450"
    using scaled_speed_range[OF g f] scaled_speed_range[OF p f] scaled_speed_range[OF r f]
    by (simp_all add: kid_speed_def Let_def)
qed

lemma elec_speed_range:
  assumes "0 \<le> v" "v \<le> 100"
  shows "0 \<le> elec_speed v" "elec_speed v < 100"
  using assms by (simp_all add: elec_speed_def)

lemma water_step_eq:
  "water_step h w True t p cs =
     (p\<lparr>progress := progress p + water_speed h w (progress p)\<rparr>,
      if crossed_point (fmod (progress p) 1000)
           (fmod (progress p + water_speed h w (progress p)) 1000)
      then cs @ [t] else cs)"
  by (simp add: water_step_def Let_def TOTAL_PATH_LENGTH_def)

lemma kid_step_eq:
  "kid_step h w True t p cs =
     (p\<lparr>progress := progress p + kid_speed h w (progress p)\<rparr>,
      if crossed_point (fmod (progress p) 1000)
           (fmod (progress p + kid_speed h w (progress p)) 1000)
      then cs @ [t] else cs)"
  by (simp add: kid_step_def Let_def TOTAL_PATH_LENGTH_def)

lemma elec_step_eq:
  "elec_step s True p c =
     (p\<lparr>progress := progress p + s\<rparr>,
      if elec_crossed (progress p) (progress p + s) then c + 1 else c)"
  by (simp add: elec_step_def Let_def)

lemma card_checkpoints:
  fixes P P' c :: real
  assumes "P \<le> P'"
  shows "int (card {k::int. P < c + 1000 * of_int k \<and> c + 1000 * of_int k \<le> P'})
           = \<lfloor>(P' - c) / 1000\<rfloor> - \<lfloor>(P - c) / 1000\<rfloor>"
proof -
  have "P < c + 1000 * of_int k \<longleftrightarrow> \<lfloor>(P - c) / 1000\<rfloor> + 1 \<le> k" for k :: int
  proof -
    have "P < c + 1000 * of_int k \<longleftrightarrow> (P - c) / 1000 < of_int k" by (simp add: field_simps)
    also have "\<dots> \<longleftrightarrow> \<lfloor>(P - c) / 1000\<rfloor> < k" by (simp add: floor_less_iff)
    also have "\<dots> \<longleftrightarrow> \<lfloor>(P - c) / 1000\<rfloor> + 1 \<le> k" by linarith
    finally show ?thesis .
  qed
  moreover have "c + 1000 * of_int k \<le> P' \<longleftrightarrow> k \<le> \<lfloor>(P' - c) / 1000\<rfloor>" for k :: int
  proof -
    have "c + 1000 * of_int k \<le> P' \<longleftrightarrow> of_int k \<le> (P' - c) / 1000" by (simp add: field_simps)
    then show ?thesis by (simp add: le_floor_iff)
  qed
  ultimately have "{k::int. P < c + 1000 * of_int k \<and> c + 1000 * of_int k \<le> P'}
      = {\<lfloor>(P - c) / 1000\<rfloor> + 1 .. \<lfloor>(P' - c) / 1000\<rfloor>}"
    by auto
  moreover have "\<lfloor>(P - c) / 1000\<rfloor> \<le> \<lfloor>(P' - c) / 1000\<rfloor>"
    using assms by (intro floor_mono) simp
  ultimately show ?thesis by simp
qed

lemma water_frames_count:
  assumes "0 \<le> progress p"
    and "\<forall>(h, w, t) \<in> set fs. 10 \<le> h \<and> h \<le> 100 \<and> 10 \<le> w \<and> w \<le> 100"
  shows "case entity_frames (\<lambda>(h, w, t). water_step h w True t) fs p cs of
           (p', cs') \<Rightarrow> progress p \<le> progress p'
             \<and> int (length cs') = int (length cs)
                  + \<lfloor>(progress p' - 450) / 1000\<rfloor> - \<lfloor>(progress p - 450) / 1000\<rfloor>"
  using assms
proof (induction fs arbitrary: p cs)
  case Nil
  then show ?case by simp
next
  case (Cons f fs)
  obtain h w t where f: "f = (h, w, t)" by (cases f)
  let ?s = "water_speed h w (progress p)"
  let ?p1 = "p\<lparr>progress := progress p + ?s\<rparr>"
  let ?l1 = "if crossed_point (fmod (progress p) 1000) (fmod (progress p + ?s) 1000)
             then cs @ [t] else cs"
  from Cons.prems(2) f have hw: "10 \<le> h" "h \<le> 100" "10 \<le> w" "w \<le> 100" by simp_all
  note s = water_speed_range[OF hw, of "progress p"]
  note fl = floor_step_450(1)[OF Cons.prems(1) s]
  have p1: "0 \<le> progress ?p1" using Cons.prems(1) s by simp
  from Cons.prems(2) have rest: "\<forall>(h, w, t) \<in> set fs. 10 \<le> h \<and> h \<le> 100 \<and> 10 \<le> w \<and> w \<le> 100"
    by simp
  obtain p' cs' where r: "entity_frames (\<lambda>(h, w, t). water_step h w True t) fs ?p1 ?l1 = (p', cs')"
    by (cases "entity_frames (\<lambda>(h, w, t). water_step h w True t) fs ?p1 ?l1")
  from Cons.IH[OF p1 rest, of ?l1] r
  have ih: "progress ?p1 \<le> progress p'"
    "int (length cs') = int (length ?l1)
       + \<lfloor>(progress p' - 450) / 1000\<rfloor> - \<lfloor>(progress ?p1 - 450) / 1000\<rfloor>"
    by simp_all
  have l1: "int (length ?l1) = int (length cs)
      + (if crossed_point (fmod (progress p) 1000) (fmod (progress p + ?s) 1000) then 1 else 0)"
    by simp
  have "entity_frames (\<lambda>(h, w, t). water_step h w True t) (f # fs) p cs = (p', cs')"
    using r by (simp add: f water_step_eq)
  moreover have "progress p \<le> progress p'" using ih(1) s by simp
  moreover have "int (length cs') = int (length cs)
                  + \<lfloor>(progress p' - 450) / 1000\<rfloor> - \<lfloor>(progress p - 450) / 1000\<rfloor>"
    using ih(2) fl unfolding l1 by simp
  ultimately show ?case by simp
qed

lemma kid_frames_count:
  assumes "0 \<le> progress p"
    and "\<forall>(h, w, t) \<in> set fs. 10 \<le> h \<and> h \<le> 100 \<and> 10 \<le> w \<and> w \<le> 100"
  shows "case entity_frames (\<lambda>(h, w, t). kid_step h w True t) fs p cs of
           (p', cs') \<Rightarrow> progress p \<le> progress p'
             \<and> int (length cs') = int (length cs)
                  + \<lfloor>(progress p' - 450) / 1000\<rfloor> - \<lfloor>(progress p - 450) / 1000\<rfloor>"
  using assms
proof (induction fs arbitrary: p cs)
  case Nil
  then show ?case by simp
next
  case (Cons f fs)
  obtain h w t where f: "f = (h, w, t)" by (cases f)
  let ?s = "kid_speed h w (progress p)"
  let ?p1 = "p\<lparr>progress := progress p + ?s\<rparr>"
  let ?l1 = "if crossed_point (fmod (progress p) 1000) (fmod (progress p + ?s) 1000)
             then cs @ [t] else cs"
  from Cons.prems(2) f have hw: "10 \<le> h" "h \<le> 100" "10 \<le> w" "w \<le> 100" by simp_all
  note s = kid_speed_range[OF hw, of "progress p"]
  note fl = floor_step_450(1)[OF Cons.prems(1) s]
  have p1: "0 \<le> progress ?p1" using Cons.prems(1) s by simp
  from Cons.prems(2) have rest: "\<forall>(h, w, t) \<in> set fs. 10 \<le> h \<and> h \<le> 100 \<and> 10 \<le> w \<and> w \<le> 100"
    by simp
  obtain p' cs' where r: "entity_frames (\<lambda>(h, w, t). kid_step h w True t) fs ?p1 ?l1 = (p', cs')"
    by (cases "entity_frames (\<lambda>(h, w, t). kid_step h w True t) fs ?p1 ?l1")
  from Cons.IH[OF p1 rest, of ?l1] r
  have ih: "progress ?p1 \<le> progress p'"
    "int (length cs') = int (length ?l1)
       + \<lfloor>(progress p' - 450) / 1000\<rfloor> - \<lfloor>(progress ?p1 - 450) / 1000\<rfloor>"
    by simp_all
  have l1: "int (length ?l1) = int (length cs)
      + (if crossed_point (fmod (progress p) 1000) (fmod (progress p + ?s) 1000) then 1 else 0)"
    by simp
  have "entity_frames (\<lambda>(h, w, t). kid_step h w True t) (f # fs) p cs = (p', cs')"
    using r by (simp add: f kid_step_eq)
  moreover have "progress p \<le> progress p'" using ih(1) s by simp
  moreover have "int (length cs') = int (length cs)
                  + \<lfloor>(progress p' - 450) / 1000\<rfloor> - \<lfloor>(progress p - 450) / 1000\<rfloor>"
    using ih(2) fl unfolding l1 by simp
  ultimately show ?case by simp
qed

lemma elec_frames_count:
  assumes "0 \<le> progress p" and "\<forall>v \<in> set vs. 0 \<le> v \<and> v \<le> 100"
  shows "case entity_frames (\<lambda>v. elec_step (elec_speed v) True) vs p c of
           (p', c') \<Rightarrow> progress p \<le> progress p'
             \<and> c' = c + \<lfloor>progress p' / 1000\<rfloor> - \<lfloor>progress p / 1000\<rfloor>"
  using assms
proof (induction vs arbitrary: p c)
  case Nil
  then show ?case by simp
next
  case (Cons v vs)
  let ?s = "elec_speed v"
  let ?p1 = "p\<lparr>progress := progress p + ?s\<rparr>"
  let ?c1 = "if elec_crossed (progress p) (progress p + ?s) then c + 1 else c"
  from Cons.prems(2) have v: "0 \<le> v" "v \<le> 100" by simp_all
  note s = elec_speed_range[OF v]
  note fl = floor_step_0(1)[OF Cons.prems(1) s]
  have p1: "0 \<le> progress ?p1" using Cons.prems(1) s by simp
  from Cons.prems(2) have rest: "\<forall>v \<in> set vs. 0 \<le> v \<and> v \<le> 100" by simp
  obtain p' c' where r: "entity_frames (\<lambda>v. elec_step (elec_speed v) True) vs ?p1 ?c1 = (p', c')"
    by (cases "entity_frames (\<lambda>v. elec_step (elec_speed v) True) vs ?p1 ?c1")
  from Cons.IH[OF p1 rest, of ?c1] r
  have ih: "progress ?p1 \<le> progress p'"
    "c' = ?c1 + \<lfloor>progress p' / 1000\<rfloor> - \<lfloor>progress ?p1 / 1000\<rfloor>"
    by simp_all
  have "entity_frames (\<lambda>v. elec_step (elec_speed v) True) (v # vs) p c = (p', c')"
    using r by (simp add: elec_step_eq)
  moreover have "progress p \<le> progress p'" using ih(1) s by simp
  moreover have "c' = c + \<lfloor>progress p' / 1000\<rfloor> - \<lfloor>progress p / 1000\<rfloor>"
    using ih(2) fl by simp
  ultimately show ?case by simp
qed


text \<open>
  Claim C2.  While measurement is on, one frame records a crossing for an entity exactly
  when the checkpoint lies after its old and not after its new progress modulo 1000,
  wraparound accounted for.  The checkpoint is 450 (\<^verbatim>\<open>CROSSING_POINT\<close>) in the water circuit
  and on the playground; in the electric circuit it is the start of the path, 0, which the
  test \<^verbatim>\<open>old % 1000 > 900 && new % 1000 <= 900\<close> detects.  Consequently, over any number of
  frames the crossings recorded for an entity are as many as the points \<open>450 + 1000 k\<close>
  (\<open>1000 k\<close> in the electric circuit) that its progress has passed: one for each lap,
  whether or not the progress ever equals the checkpoint.  The sliders are in their ranges
  (voltage 0..100, heights and widths 10..100) and the progress is not negative.
\<close>

theorem checkpoint_crossing:
  "(0 \<le> progress p \<and> 10 \<le> h \<and> h \<le> 100 \<and> 10 \<le> w \<and> w \<le> 100 \<longrightarrow>
      (case water_step h w True t p cs of
         (p', cs') \<Rightarrow>
           cs' = (if spec_crossing 450 (fmod (progress p) 1000) (fmod (progress p') 1000)
                  then cs @ [t] else cs))
      \<and> (case kid_step h w True t p cs of
         (p', cs') \<Rightarrow>
           cs' = (if spec_crossing 450 (fmod (progress p) 1000) (fmod (progress p') 1000)
                  then cs @ [t] else cs)))
   \<and> (0 \<le> progress p \<and> 0 \<le> v \<and> v \<le> 100 \<longrightarrow>
      (case elec_step (elec_speed v) True p c of
         (p', c') \<Rightarrow>
           c' = (if spec_crossing 0 (fmod (progress p) 1000) (fmod (progress p') 1000)
                 then c + 1 else c)))
   \<and> (0 \<le> progress p
        \<and> (\<forall>(h, w, t) \<in> set fs. 10 \<le> h \<and> h \<le> 100 \<and> 10 \<le> w \<and> w \<le> 100) \<longrightarrow>
      (case entity_frames (\<lambda>(h, w, t). water_step h w True t) fs p cs of
         (p', cs') \<Rightarrow>
           int (length cs') - int (length cs)
             = int (card {k::int. progress p < 450 + 1000 * of_int k
                                  \<and> 450 + 1000 * of_int k \<le> progress p'}))
      \<and> (case entity_frames (\<lambda>(h, w, t). kid_step h w True t) fs p cs of
         (p', cs') \<Rightarrow>
           int (length cs') - int (length cs)
             = int (card {k::int. progress p < 450 + 1000 * of_int k
                                  \<and> 450 + 1000 * of_int k \<le> progress p'})))
   \<and> (0 \<le> progress p \<and> (\<forall>v \<in> set vs. 0 \<le> v \<and> v \<le> 100) \<longrightarrow>
      (case entity_frames (\<lambda>v. elec_step (elec_speed v) True) vs p c of
         (p', c') \<Rightarrow>
           c' - c = int (card {k::int. progress p < 1000 * of_int k
                                       \<and> 1000 * of_int k \<le> progress p'})))"
proof (intro conjI impI; (elim conjE)?)
  assume a: "0 \<le> progress p" "10 \<le> h" "h \<le> 100" "10 \<le> w" "w \<le> 100"
  note s = water_speed_range[OF a(2-5), of "progress p"]
  show "case water_step h w True t p cs of
         (p', cs') \<Rightarrow>
           cs' = (if spec_crossing 450 (fmod (progress p) 1000) (fmod (progress p') 1000)
                  then cs @ [t] else cs)"
    using floor_step_450(2)[OF a(1) s] by (simp add: water_step_eq)
next
  assume a: "0 \<le> progress p" "10 \<le> h" "h \<le> 100" "10 \<le> w" "w \<le> 100"
  note s = kid_speed_range[OF a(2-5), of "progress p"]
  show "case kid_step h w True t p cs of
         (p', cs') \<Rightarrow>
           cs' = (if spec_crossing 450 (fmod (progress p) 1000) (fmod (progress p') 1000)
                  then cs @ [t] else cs)"
    using floor_step_450(2)[OF a(1) s] by (simp add: kid_step_eq)
next
  assume a: "0 \<le> progress p" "0 \<le> v" "v \<le> 100"
  note s = elec_speed_range[OF a(2,3)]
  show "case elec_step (elec_speed v) True p c of
         (p', c') \<Rightarrow>
           c' = (if spec_crossing 0 (fmod (progress p) 1000) (fmod (progress p') 1000)
                 then c + 1 else c)"
    using floor_step_0(2)[OF a(1) s] by (simp add: elec_step_eq)
next
  assume a: "0 \<le> progress p"
    "\<forall>(h, w, t) \<in> set fs. 10 \<le> h \<and> h \<le> 100 \<and> 10 \<le> w \<and> w \<le> 100"
  obtain p' cs' where r: "entity_frames (\<lambda>(h, w, t). water_step h w True t) fs p cs = (p', cs')"
    by (cases "entity_frames (\<lambda>(h, w, t). water_step h w True t) fs p cs")
  from water_frames_count[OF a, of cs] r
  have "progress p \<le> progress p'"
    "int (length cs') = int (length cs)
       + \<lfloor>(progress p' - 450) / 1000\<rfloor> - \<lfloor>(progress p - 450) / 1000\<rfloor>"
    by simp_all
  then show "case entity_frames (\<lambda>(h, w, t). water_step h w True t) fs p cs of
         (p', cs') \<Rightarrow>
           int (length cs') - int (length cs)
             = int (card {k::int. progress p < 450 + 1000 * of_int k
                                  \<and> 450 + 1000 * of_int k \<le> progress p'})"
    unfolding r by (simp add: card_checkpoints)
next
  assume a: "0 \<le> progress p"
    "\<forall>(h, w, t) \<in> set fs. 10 \<le> h \<and> h \<le> 100 \<and> 10 \<le> w \<and> w \<le> 100"
  obtain p' cs' where r: "entity_frames (\<lambda>(h, w, t). kid_step h w True t) fs p cs = (p', cs')"
    by (cases "entity_frames (\<lambda>(h, w, t). kid_step h w True t) fs p cs")
  from kid_frames_count[OF a, of cs] r
  have "progress p \<le> progress p'"
    "int (length cs') = int (length cs)
       + \<lfloor>(progress p' - 450) / 1000\<rfloor> - \<lfloor>(progress p - 450) / 1000\<rfloor>"
    by simp_all
  then show "case entity_frames (\<lambda>(h, w, t). kid_step h w True t) fs p cs of
         (p', cs') \<Rightarrow>
           int (length cs') - int (length cs)
             = int (card {k::int. progress p < 450 + 1000 * of_int k
                                  \<and> 450 + 1000 * of_int k \<le> progress p'})"
    unfolding r by (simp add: card_checkpoints)
next
  assume a: "0 \<le> progress p" "\<forall>v \<in> set vs. 0 \<le> v \<and> v \<le> 100"
  obtain p' c' where r: "entity_frames (\<lambda>v. elec_step (elec_speed v) True) vs p c = (p', c')"
    by (cases "entity_frames (\<lambda>v. elec_step (elec_speed v) True) vs p c")
  from elec_frames_count[OF a, of c] r
  have "progress p \<le> progress p'"
    "c' = c + \<lfloor>progress p' / 1000\<rfloor> - \<lfloor>progress p / 1000\<rfloor>"
    by simp_all
  then show "case entity_frames (\<lambda>v. elec_step (elec_speed v) True) vs p c of
         (p', c') \<Rightarrow>
           c' - c = int (card {k::int. progress p < 1000 * of_int k
                                       \<and> 1000 * of_int k \<le> progress p'})"
    unfolding r using card_checkpoints[of "progress p" "progress p'" 0] by simp
qed


theorem checkpoint_crossing_witness:
  "snd (water_step 50 100 True 7 \<lparr>ident = 0, progress = 449\<rparr> []) = [7]
   \<and> snd (kid_step 50 100 True 7 \<lparr>ident = 0, progress = 449\<rparr> []) = [7]
   \<and> snd (elec_step (elec_speed 50) True \<lparr>ident = 0, progress = 999\<rparr> 0) = 1
   \<and> entity_frames (\<lambda>(h, w, t). water_step h w True t) [(50, 100, 1), (50, 100, 2)]
        \<lparr>ident = 0, progress = 449\<rparr> [] = (\<lparr>ident = 0, progress = 455\<rparr>, [1])
   \<and> card {k::int. (449::real) < 450 + 1000 * of_int k \<and> 450 + 1000 * of_int k \<le> (455::real)} = 1
   \<and> entity_frames (\<lambda>(h, w, t). kid_step h w True t) [(50, 100, 1), (50, 100, 2)]
        \<lparr>ident = 0, progress = 449\<rparr> [] = (\<lparr>ident = 0, progress = 453\<rparr>, [1])
   \<and> card {k::int. (449::real) < 450 + 1000 * of_int k \<and> 450 + 1000 * of_int k \<le> (453::real)} = 1
   \<and> entity_frames (\<lambda>v. elec_step (elec_speed v) True) [50, 50]
        \<lparr>ident = 0, progress = 999\<rparr> 0 = (\<lparr>ident = 0, progress = 1003\<rparr>, 1)
   \<and> card {k::int. (999::real) < 1000 * of_int k \<and> 1000 * of_int k \<le> (1003::real)} = 1"
proof -
  let ?p = "\<lparr>ident = 0, progress = 449\<rparr>"
  let ?q = "\<lparr>ident = 0, progress = 999\<rparr>"
  let ?fs = "[(50, 100, 1), (50, 100, 2)] :: (real \<times> real \<times> real) list"
  have m: "fmod 449 1000 = 449" "fmod 452 1000 = 452" "fmod 455 1000 = 455"
    "fmod 451 1000 = 451" "fmod 453 1000 = 453"
    "fmod 999 1000 = 999" "fmod 1001 1000 = 1" "fmod 1003 1000 = 3"
    by (simp_all add: fmod_def trunc_def)
  have sw: "water_speed 50 100 449 = 3" "water_speed 50 100 452 = 3"
    by (simp_all add: water_speed_def widthFactor_def TOTAL_PATH_LENGTH_def m)
  have sk: "kid_speed 50 100 449 = 2" "kid_speed 50 100 451 = 2"
    by (simp_all add: kid_speed_def widthFactor_def TOTAL_PATH_LENGTH_def m)
  have se: "elec_speed 50 = 2" by (simp add: elec_speed_def)
  have w1: "water_step 50 100 True 7 ?p [] = (\<lparr>ident = 0, progress = 452\<rparr>, [7])"
    by (simp add: water_step_eq sw m crossed_point_def CROSSING_POINT_def)
  have k1: "kid_step 50 100 True 7 ?p [] = (\<lparr>ident = 0, progress = 451\<rparr>, [7])"
    by (simp add: kid_step_eq sk m crossed_point_def CROSSING_POINT_def)
  have e1: "elec_step (elec_speed 50) True ?q 0 = (\<lparr>ident = 0, progress = 1001\<rparr>, 1)"
    by (simp add: elec_step_eq se m elec_crossed_def TOTAL_PATH_LENGTH_def)
  have w2: "entity_frames (\<lambda>(h, w, t). water_step h w True t) ?fs ?p []
              = (\<lparr>ident = 0, progress = 455\<rparr>, [1])"
    by (simp add: water_step_eq sw m crossed_point_def CROSSING_POINT_def)
  have k2: "entity_frames (\<lambda>(h, w, t). kid_step h w True t) ?fs ?p []
              = (\<lparr>ident = 0, progress = 453\<rparr>, [1])"
    by (simp add: kid_step_eq sk m crossed_point_def CROSSING_POINT_def)
  have e2: "entity_frames (\<lambda>v. elec_step (elec_speed v) True) [50, 50] ?q 0
              = (\<lparr>ident = 0, progress = 1003\<rparr>, 1)"
    by (simp add: elec_step_eq se m elec_crossed_def TOTAL_PATH_LENGTH_def)
  have hp: "0 \<le> progress ?p \<and> (10::real) \<le> 50 \<and> (50::real) \<le> 100 \<and> (10::real) \<le> 100
      \<and> (100::real) \<le> 100" by simp
  have hq: "0 \<le> progress ?q \<and> (0::real) \<le> 50 \<and> (50::real) \<le> 100" by simp
  have hf: "0 \<le> progress ?p
      \<and> (\<forall>(h, w, t) \<in> set ?fs. 10 \<le> h \<and> h \<le> 100 \<and> 10 \<le> w \<and> w \<le> 100)" by simp
  have hv: "0 \<le> progress ?q \<and> (\<forall>v \<in> set [50, 50 :: real]. 0 \<le> v \<and> v \<le> 100)" by simp
  note a = checkpoint_crossing[where p = ?p and h = 50 and w = 100 and t = 7 and cs = "[]"
      and fs = ?fs and v = 50 and vs = "[50, 50]" and c = 0]
  note b = checkpoint_crossing[where p = ?q and h = 50 and w = 100 and t = 7 and cs = "[]"
      and fs = ?fs and v = 50 and vs = "[50, 50]" and c = 0]
  from a hp have 1: "snd (water_step 50 100 True 7 ?p []) = [7]"
    "snd (kid_step 50 100 True 7 ?p []) = [7]"
    unfolding w1 k1 by (simp_all add: m spec_crossing_def)
  from b hq have 2: "snd (elec_step (elec_speed 50) True ?q 0) = 1"
    unfolding e1 by (simp add: m spec_crossing_def)
  from a hf have 3:
    "card {k::int. (449::real) < 450 + 1000 * of_int k \<and> 450 + 1000 * of_int k \<le> (455::real)} = 1"
    "card {k::int. (449::real) < 450 + 1000 * of_int k \<and> 450 + 1000 * of_int k \<le> (453::real)} = 1"
    unfolding w2 k2 by simp_all
  from b hv have 4:
    "card {k::int. (999::real) < 1000 * of_int k \<and> 1000 * of_int k \<le> (1003::real)} = 1"
    unfolding e2 by simp
  from 1 2 3 4 w2 k2 e2 show ?thesis by blast
qed

end
